theory Spec2Isabelle
  imports Main
begin

section \<open>The data-subscriber query timer lambda\<close>

text \<open>
  A shallow embedding of \<^verbatim>\<open>data_subscriber_query_lambda.py\<close>: the module-level
  configuration check, \<^verbatim>\<open>submit_job\<close>, \<^verbatim>\<open>lambda_handler\<close> and
  \<^verbatim>\<open>get_temporal_start_datetime\<close>.

  Conventions of the model.
  \<^item> A Python \<^verbatim>\<open>str\<close> is a \<open>string\<close>; a character stands for the code point of the
    same number, so the model covers the strings over U+0000 .. U+00FF.
  \<^item> A Python \<^verbatim>\<open>int\<close> is an \<open>int\<close>.
  \<^item> A raised exception is the \<open>Inl\<close> of a result \<open>error + 'a\<close>.
  \<^item> \<^verbatim>\<open>os.environ\<close> is a map from names to values, the trigger event a map from
    keys to strings.
  \<^item> The surroundings the handler talks to are a record \<open>world\<close>: the timestamp
    parser of dateutil, the wall clock, and the answer of the job service to a POST.
    The handler returns its result together with the list of requests it has sent.
  \<^item> Logging has no effect on any result and is left out.
\<close>

subsection \<open>Values and exceptions\<close>

datatype json =
    JNull
  | JBool bool
  | JNumber int
  | JString string
  | JArray "json list"
  | JObject "(string \<times> json) list"

text \<open>
  \<open>JObject\<close> holds the items of the \<^verbatim>\<open>dict\<close> that \<^verbatim>\<open>req.json()\<close> returns, in
  insertion order; \<open>map_of\<close> reads a key. \<open>JobNotSubmitted r\<close> is the
  \<^verbatim>\<open>Exception(f"job not submitted successfully: {result}")\<close> of \<^verbatim>\<open>submit_job\<close>,
  carrying the parsed response body \<open>r\<close>.
\<close>

datatype error =
    KeyError string
  | ValueError
  | AttributeError
  | OverflowError
  | RuntimeError
  | HTTPError int
  | JSONDecodeError
  | ConnectionError
  | JobNotSubmitted json

type_synonym environ = "string \<rightharpoonup> string"
type_synonym event = "string \<rightharpoonup> string"

definition err_bind :: "error + 'a \<Rightarrow> ('a \<Rightarrow> error + 'b) \<Rightarrow> error + 'b" where
  "err_bind m f = (case m of Inl e \<Rightarrow> Inl e | Inr x \<Rightarrow> f x)"

text \<open>\<^verbatim>\<open>os.environ[k]\<close> raises KeyError on a missing name; \<^verbatim>\<open>os.environ.get(k, d)\<close> does not.\<close>

definition environ_getitem :: "environ \<Rightarrow> string \<Rightarrow> error + string" where
  "environ_getitem env k = (case env k of None \<Rightarrow> Inl (KeyError k) | Some v \<Rightarrow> Inr v)"

definition environ_get :: "environ \<Rightarrow> string \<Rightarrow> string \<Rightarrow> string" where
  "environ_get env k d = (case env k of None \<Rightarrow> d | Some v \<Rightarrow> v)"

subsection \<open>Strings and numbers\<close>

definition isdigit :: "char \<Rightarrow> bool" where
  "isdigit c = (c \<in> set ''0123456789'')"

definition digit_char :: "nat \<Rightarrow> char" where
  "digit_char k = ''0123456789'' ! k"

definition digit_val :: "char \<Rightarrow> int" where
  "digit_val c = of_char c - 48"

text \<open>\<^verbatim>\<open>str(n)\<close> for an integer, and the zero-padded \<^verbatim>\<open>%02d\<close>.\<close>

fun str_nat :: "nat \<Rightarrow> string" where
  "str_nat n = (if n < 10 then [digit_char n] else str_nat (n div 10) @ [digit_char (n mod 10)])"

declare str_nat.simps [simp del]

definition str_int :: "int \<Rightarrow> string" where
  "str_int i = (if i < 0 then CHR ''-'' # str_nat (nat (- i)) else str_nat (nat i))"

definition pad2 :: "int \<Rightarrow> string" where
  "pad2 i = (if 0 \<le> i \<and> i < 10 then CHR ''0'' # str_int i else str_int i)"

text \<open>
  \<^verbatim>\<open>re.search(r"\d+", s)\<close>: the leftmost, longest run of decimal digits, or no match.
  Among the code points below 256 the class \<^verbatim>\<open>\d\<close> holds the ASCII digits only.
\<close>

definition search_digits :: "string \<Rightarrow> string option" where
  "search_digits s =
     (let t = dropWhile (\<lambda>c. \<not> isdigit c) s
      in if t = [] then None else Some (takeWhile isdigit t))"

text \<open>
  \<^verbatim>\<open>int(s)\<close> on a string: white space is stripped at both ends, one sign may lead, and
  the digits may be grouped by single underscores. Of the code points below 256, the
  white space of \<^verbatim>\<open>int\<close> is U+0009 .. U+000D, U+0020, U+0085 and U+00A0. CPython
  refuses a string of more than \<^verbatim>\<open>sys.get_int_max_str_digits()\<close> digits, 4300 unless
  the interpreter is configured otherwise, with a ValueError; the sign, the white space
  and the underscores do not count, leading zeros do.
\<close>

definition isspace :: "char \<Rightarrow> bool" where
  "isspace c = (of_char c \<in> {9, 10, 11, 12, 13, 32, 133, 160 :: nat})"

definition strip :: "string \<Rightarrow> string" where
  "strip s = rev (dropWhile isspace (rev (dropWhile isspace s)))"

fun digits_ok :: "string \<Rightarrow> bool" where
  "digits_ok [] = False"
| "digits_ok [c] = isdigit c"
| "digits_ok (c # d # cs) =
     (isdigit c \<and> (if d = CHR ''_'' then digits_ok cs else digits_ok (d # cs)))"

definition digits_value :: "string \<Rightarrow> int" where
  "digits_value s = foldl (\<lambda>a c. 10 * a + digit_val c) 0 (filter isdigit s)"

definition MAX_STR_DIGITS :: nat where
  "MAX_STR_DIGITS = 4300"

definition py_int :: "string \<Rightarrow> int option" where
  "py_int s =
     (let t = strip s;
          (neg, u) = (case t of
                        [] \<Rightarrow> (False, [])
                      | c # r \<Rightarrow> if c = CHR ''-'' then (True, r)
                                 else if c = CHR ''+'' then (False, r)
                                 else (False, t))
      in if digits_ok u \<and> length (filter isdigit u) \<le> MAX_STR_DIGITS
         then Some (if neg then - digits_value u else digits_value u)
         else None)"

text \<open>
  \<^verbatim>\<open>distutils.util.strtobool\<close>: the argument is lower-cased and looked up in the two
  tuples of tokens; anything else is a ValueError. (It returns 1 or 0; the source only
  tests the truth of the result.)
\<close>

definition lower_char :: "char \<Rightarrow> char" where
  "lower_char c =
     (let n = of_char c :: nat
      in if (65 \<le> n \<and> n \<le> 90) \<or> (192 \<le> n \<and> n \<le> 222 \<and> n \<noteq> 215)
         then char_of (n + 32) else c)"

definition strtobool :: "string \<Rightarrow> error + bool" where
  "strtobool val =
     (let val = map lower_char val
      in if val \<in> set [''y'', ''yes'', ''t'', ''true'', ''on'', ''1''] then Inr True
         else if val \<in> set [''n'', ''no'', ''f'', ''false'', ''off'', ''0''] then Inr False
         else Inl ValueError)"

subsection \<open>The proleptic Gregorian calendar of \<^verbatim>\<open>datetime\<close>\<close>

definition is_leap :: "int \<Rightarrow> bool" where
  "is_leap year = (year mod 4 = 0 \<and> (year mod 100 \<noteq> 0 \<or> year mod 400 = 0))"

definition days_before_year :: "int \<Rightarrow> int" where
  "days_before_year year = (let y = year - 1 in y * 365 + y div 4 - y div 100 + y div 400)"

definition DAYS_IN_MONTH :: "int list" where
  "DAYS_IN_MONTH = [-1, 31, 28, 31, 30, 31, 30, 31, 31, 30, 31, 30, 31]"

definition DAYS_BEFORE_MONTH :: "int list" where
  "DAYS_BEFORE_MONTH = [-1, 0, 31, 59, 90, 120, 151, 181, 212, 243, 273, 304, 334]"

text \<open>Both tables are read at a month in 1 .. 12 only.\<close>

definition days_in_month :: "int \<Rightarrow> int \<Rightarrow> int" where
  "days_in_month year month =
     (if month = 2 \<and> is_leap year then 29 else DAYS_IN_MONTH ! nat month)"

definition days_before_month :: "int \<Rightarrow> int \<Rightarrow> int" where
  "days_before_month year month =
     DAYS_BEFORE_MONTH ! nat month + (if month > 2 \<and> is_leap year then 1 else 0)"

definition ymd2ord :: "int \<Rightarrow> int \<Rightarrow> int \<Rightarrow> int" where
  "ymd2ord year month day = days_before_year year + days_before_month year month + day"

definition MAXORDINAL :: int where
  "MAXORDINAL = 3652059"

text \<open>
  \<^verbatim>\<open>_ord2ymd\<close>: the ordinal is cut into cycles of 400, 100, 4 and 1 years (of
  146097, 36524, 1461 and 365 days), then the month is estimated and corrected.
\<close>

definition ord2ymd :: "int \<Rightarrow> int \<times> int \<times> int" where
  "ord2ymd n0 =
     (let n = n0 - 1;
          n400 = n div 146097; n = n mod 146097;
          year = n400 * 400 + 1;
          n100 = n div 36524; n = n mod 36524;
          n4 = n div 1461; n = n mod 1461;
          n1 = n div 365; n = n mod 365;
          year = year + n100 * 100 + n4 * 4 + n1
      in if n1 = 4 \<or> n100 = 4 then (year - 1, 12, 31)
         else
           let leapyear = (n1 = 3 \<and> (n4 \<noteq> 24 \<or> n100 = 3));
               month = (n + 50) div 32;
               preceding = DAYS_BEFORE_MONTH ! nat month
                           + (if month > 2 \<and> leapyear then 1 else 0);
               (month, preceding) =
                  (if preceding > n
                   then (month - 1,
                         preceding - (DAYS_IN_MONTH ! nat (month - 1)
                                      + (if month - 1 = 2 \<and> leapyear then 1 else 0)))
                   else (month, preceding))
           in (year, month, n - preceding + 1))"

subsection \<open>\<^verbatim>\<open>datetime\<close>, \<^verbatim>\<open>relativedelta\<close> and \<^verbatim>\<open>strftime\<close>\<close>

datatype tzinfo = UTC | tzoffset int

record datetime =
  year :: int
  month :: int
  day :: int
  hour :: int
  minute :: int
  second :: int
  microsecond :: int
  tzinfo :: "tzinfo option"

text \<open>The invariant of the class: what the constructor checks.\<close>

definition valid_datetime :: "datetime \<Rightarrow> bool" where
  "valid_datetime dt =
     (1 \<le> year dt \<and> year dt \<le> 9999 \<and> 1 \<le> month dt \<and> month dt \<le> 12
      \<and> 1 \<le> day dt \<and> day dt \<le> days_in_month (year dt) (month dt)
      \<and> 0 \<le> hour dt \<and> hour dt \<le> 23 \<and> 0 \<le> minute dt \<and> minute dt \<le> 59
      \<and> 0 \<le> second dt \<and> second dt \<le> 59
      \<and> 0 \<le> microsecond dt \<and> microsecond dt \<le> 999999)"

definition datetime_new ::
  "int \<Rightarrow> int \<Rightarrow> int \<Rightarrow> int \<Rightarrow> int \<Rightarrow> int \<Rightarrow> int \<Rightarrow> tzinfo option \<Rightarrow> error + datetime" where
  "datetime_new y mo d h mi s us tz =
     (let dt = \<lparr>year = y, month = mo, day = d, hour = h, minute = mi, second = s,
                microsecond = us, tzinfo = tz\<rparr>
      in if valid_datetime dt then Inr dt else Inl ValueError)"

definition toordinal :: "datetime \<Rightarrow> int" where
  "toordinal dt = ymd2ord (year dt) (month dt) (day dt)"

text \<open>The seconds from 0001-01-01T00:00:00 (ordinal 1 is day 1) to the wall time of \<open>dt\<close>.\<close>

definition wall_seconds :: "datetime \<Rightarrow> int" where
  "wall_seconds dt = toordinal dt * 86400 + hour dt * 3600 + minute dt * 60 + second dt"

text \<open>
  Every \<^verbatim>\<open>relativedelta\<close> the source builds has one relative field set, \<^verbatim>\<open>minutes\<close>
  or \<^verbatim>\<open>days\<close>, and no absolute field. Adding it to a datetime replaces no field and
  adds \<^verbatim>\<open>timedelta(days=.., hours=.., minutes=..)\<close>; the carry of minutes into hours
  and days that the constructor performs does not change that sum, so the model keeps
  days and minutes. \<^verbatim>\<open>datetime + timedelta\<close> goes through the ordinal of the date and
  raises OverflowError when the result leaves 0001-01-01 .. 9999-12-31 (as does a
  timedelta too large to build). Microseconds and the time zone are carried over.
\<close>

record relativedelta =
  rd_days :: int
  rd_minutes :: int

definition relativedelta_neg :: "relativedelta \<Rightarrow> relativedelta" where
  "relativedelta_neg rd = \<lparr>rd_days = - rd_days rd, rd_minutes = - rd_minutes rd\<rparr>"

definition datetime_add :: "datetime \<Rightarrow> relativedelta \<Rightarrow> error + datetime" where
  "datetime_add dt rd =
     (let s = hour dt * 3600 + minute dt * 60 + second dt + rd_minutes rd * 60;
          days = toordinal dt + rd_days rd + s div 86400;
          rem = s mod 86400
      in if 0 < days \<and> days \<le> MAXORDINAL
         then (case ord2ymd days of (y, mo, d) \<Rightarrow>
                 Inr (dt\<lparr>year := y, month := mo, day := d,
                         hour := rem div 3600, minute := rem mod 3600 div 60,
                         second := rem mod 60\<rparr>))
         else Inl OverflowError)"

definition datetime_sub :: "datetime \<Rightarrow> relativedelta \<Rightarrow> error + datetime" where
  "datetime_sub dt rd = datetime_add dt (relativedelta_neg rd)"

text \<open>
  \<^verbatim>\<open>strftime\<close> with the directives the source uses. CPython hands the format to the C
  library of the platform. The lambda runs on Linux, on a Python that still ships
  \<^verbatim>\<open>distutils\<close> (3.11 at the latest); there glibc prints \<^verbatim>\<open>%Y\<close> as the plain decimal
  number of the year, without padding (\<^verbatim>\<open>datetime(999, 1, 1).strftime("%Y")\<close> is
  \<^verbatim>\<open>'999'\<close>), and the other five directives as two digits.
\<close>

definition DATETIME_FORMAT :: string where
  "DATETIME_FORMAT = ''%Y-%m-%dT%H:%M:%SZ''"

definition JOB_NAME_DATETIME_FORMAT :: string where
  "JOB_NAME_DATETIME_FORMAT = ''%Y%m%dT%H%M%S''"

definition directive :: "char \<Rightarrow> datetime \<Rightarrow> string" where
  "directive c dt =
     (if c = CHR ''Y'' then str_int (year dt)
      else if c = CHR ''m'' then pad2 (month dt)
      else if c = CHR ''d'' then pad2 (day dt)
      else if c = CHR ''H'' then pad2 (hour dt)
      else if c = CHR ''M'' then pad2 (minute dt)
      else if c = CHR ''S'' then pad2 (second dt)
      else [CHR ''%'', c])"

fun strftime :: "datetime \<Rightarrow> string \<Rightarrow> string" where
  "strftime dt [] = []"
| "strftime dt [c] = [c]"
| "strftime dt (c # d # cs) =
     (if c = CHR ''%'' then directive d dt @ strftime dt cs else c # strftime dt (d # cs))"

text \<open>
  A string has the shape of a pattern when it has the pattern's length, a decimal
  digit wherever the pattern has \<open>d\<close>, and the pattern's own character elsewhere.
\<close>

fun has_shape :: "string \<Rightarrow> string \<Rightarrow> bool" where
  "has_shape [] [] = True"
| "has_shape (p # ps) (c # cs) =
     ((if p = CHR ''d'' then isdigit c else c = p) \<and> has_shape ps cs)"
| "has_shape _ _ = False"

definition FIXED_SHAPE :: string where
  "FIXED_SHAPE = ''dddd-dd-ddTdd:dd:ddZ''"

subsection \<open>The surroundings: parser, clock and job service\<close>

datatype form_value = FormStr string | FormInt int

record request =
  url :: string
  data :: "(string \<times> form_value) list"
  verify :: bool

text \<open>
  A response: its status code and what a JSON reader makes of the body the job
  service has sent, \<open>None\<close> when that is not JSON.
\<close>

record response =
  status_code :: int
  json_body :: "json option"

text \<open>
  \<open>isoparse\<close> is \<^verbatim>\<open>dateutil.parser.isoparse\<close>, \<open>utcnow\<close> the reading of
  \<^verbatim>\<open>datetime.utcnow()\<close>, and \<open>post\<close> the outcome of \<^verbatim>\<open>requests.post\<close> on a request:
  an exception of the transport or the response of the job service. A datetime that
  Python hands out satisfies \<open>valid_datetime\<close>; a statement that depends on it says so.
\<close>

record world =
  isoparse :: "string \<Rightarrow> error + datetime"
  utcnow :: datetime
  post :: "request \<Rightarrow> error + response"

text \<open>
  A parser for the timestamps EventBridge delivers, \<^verbatim>\<open>YYYY-MM-DDTHH:MM:SSZ\<close>. On a
  string of this shape it does what dateutil does: the fields go to the constructor of
  \<^verbatim>\<open>datetime\<close> with \<^verbatim>\<open>tz.UTC\<close>, and hour 24 is accepted at 24:00:00 only and means
  midnight of the next day. It rejects every other string, whereas dateutil accepts
  more of ISO-8601; the handler therefore takes its parser from the world, and this
  one serves as the parser of the concrete worlds below.
\<close>

definition field :: "string \<Rightarrow> nat \<Rightarrow> nat \<Rightarrow> int" where
  "field s i n = digits_value (take n (drop i s))"

definition isoparse_utc :: "string \<Rightarrow> error + datetime" where
  "isoparse_utc s =
     (if has_shape FIXED_SHAPE s
      then let y = field s 0 4; mo = field s 5 2; d = field s 8 2;
               h = field s 11 2; mi = field s 14 2; sec = field s 17 2
           in if h = 24
              then if mi = 0 \<and> sec = 0
                   then err_bind (datetime_new y mo d 0 0 0 0 (Some UTC))
                          (\<lambda>dt. datetime_add dt \<lparr>rd_days = 1, rd_minutes = 0\<rparr>)
                   else Inl ValueError
              else datetime_new y mo d h mi sec 0 (Some UTC)
      else Inl ValueError)"

subsection \<open>\<^verbatim>\<open>json.dumps\<close> on the values the source passes\<close>

text \<open>
  \<^verbatim>\<open>json.dumps\<close> with its defaults: a string is quoted, with the quote, the backslash
  and the control characters escaped and everything outside U+0020 .. U+007E written
  as \<^verbatim>\<open>\u00xx\<close>; items are separated by a comma and a space, a key and its value by a
  colon and a space.
\<close>

definition hex_char :: "nat \<Rightarrow> char" where
  "hex_char k = ''0123456789abcdef'' ! k"

definition json_escape :: "char \<Rightarrow> string" where
  "json_escape c =
     (let n = of_char c :: nat
      in if n = 34 then [CHR 0x5C, CHR 0x22]
         else if n = 92 then [CHR 0x5C, CHR 0x5C]
         else if n = 10 then [CHR 0x5C, CHR ''n'']
         else if n = 13 then [CHR 0x5C, CHR ''r'']
         else if n = 9 then [CHR 0x5C, CHR ''t'']
         else if n = 8 then [CHR 0x5C, CHR ''b'']
         else if n = 12 then [CHR 0x5C, CHR ''f'']
         else if 32 \<le> n \<and> n \<le> 126 then [c]
         else [CHR 0x5C, CHR ''u'', CHR ''0'', CHR ''0'', hex_char (n div 16), hex_char (n mod 16)])"

definition json_dumps_str :: "string \<Rightarrow> string" where
  "json_dumps_str s = CHR 0x22 # concat (map json_escape s) @ [CHR 0x22]"

fun join :: "string \<Rightarrow> string list \<Rightarrow> string" where
  "join sep [] = []"
| "join sep [x] = x"
| "join sep (x # y # xs) = x @ sep @ join sep (y # xs)"

definition json_dumps_list :: "string list \<Rightarrow> string" where
  "json_dumps_list xs = ''['' @ join '', '' (map json_dumps_str xs) @ '']''"

definition json_dumps_dict :: "(string \<times> string) list \<Rightarrow> string" where
  "json_dumps_dict kvs =
     ''{'' @ join '', '' (map (\<lambda>(k, v). json_dumps_str k @ '': '' @ json_dumps_str v) kvs) @ ''}''"

subsection \<open>Reading JSON back\<close>

text \<open>
  What a JSON reader (RFC 8259, \<^verbatim>\<open>json.loads\<close>) makes of a text that is an array of
  strings or an object whose values are strings; it says what it means for a form
  field to be the JSON encoding of a value. A character of a string stands for itself
  or is written as an escape; an escape of four hexadecimal digits beyond U+00FF is
  outside the strings of the model. White space may precede every token.
\<close>

definition hex_val :: "char \<Rightarrow> nat option" where
  "hex_val c =
     (let n = of_char c :: nat
      in if 48 \<le> n \<and> n \<le> 57 then Some (n - 48)
         else if 97 \<le> n \<and> n \<le> 102 then Some (n - 87)
         else if 65 \<le> n \<and> n \<le> 70 then Some (n - 55)
         else None)"

definition json_char :: "string \<Rightarrow> (char \<times> string) option" where
  "json_char s =
     (case s of
        [] \<Rightarrow> None
      | c # r \<Rightarrow>
          if c = CHR 0x5C
          then (case r of
                  [] \<Rightarrow> None
                | e # r' \<Rightarrow>
                    if e = CHR 0x22 then Some (CHR 0x22, r')
                    else if e = CHR 0x5C then Some (CHR 0x5C, r')
                    else if e = CHR ''/'' then Some (CHR ''/'', r')
                    else if e = CHR ''b'' then Some (CHR 0x08, r')
                    else if e = CHR ''f'' then Some (CHR 0x0C, r')
                    else if e = CHR ''n'' then Some (CHR 0x0A, r')
                    else if e = CHR ''r'' then Some (CHR 0x0D, r')
                    else if e = CHR ''t'' then Some (CHR 0x09, r')
                    else if e = CHR ''u''
                    then (case map hex_val (take 4 r') of
                            [Some a, Some b, Some x, Some y] \<Rightarrow>
                              if a = 0 \<and> b = 0 then Some (char_of (16 * x + y), drop 4 r')
                              else None
                          | _ \<Rightarrow> None)
                    else None)
          else if c = CHR 0x22 \<or> (of_char c :: nat) < 32 then None
          else Some (c, r))"

function json_chars :: "string \<Rightarrow> (string \<times> string) option" where
  "json_chars [] = None"
| "json_chars (c # r) =
     (if c = CHR 0x22 then Some ([], r)
      else case json_char (c # r) of
             None \<Rightarrow> None
           | Some (d, r') \<Rightarrow>
               (case json_chars r' of None \<Rightarrow> None | Some (ds, rest) \<Rightarrow> Some (d # ds, rest)))"
  by pat_completeness auto

definition json_ws :: "string \<Rightarrow> string" where
  "json_ws s = dropWhile (\<lambda>c. c \<in> set [CHR 0x20, CHR 0x09, CHR 0x0A, CHR 0x0D]) s"

definition json_string :: "string \<Rightarrow> (string \<times> string) option" where
  "json_string s =
     (case json_ws s of
        [] \<Rightarrow> None
      | c # r \<Rightarrow> if c = CHR 0x22 then json_chars r else None)"

definition json_member :: "string \<Rightarrow> ((string \<times> string) \<times> string) option" where
  "json_member s =
     (case json_string s of
        None \<Rightarrow> None
      | Some (k, r) \<Rightarrow>
          (case json_ws r of
             [] \<Rightarrow> None
           | c # r' \<Rightarrow>
               if c = CHR '':''
               then (case json_string r' of None \<Rightarrow> None | Some (v, r'') \<Rightarrow> Some ((k, v), r''))
               else None))"

function json_items :: "string \<Rightarrow> (string list \<times> string) option" where
  "json_items s =
     (case json_string s of
        None \<Rightarrow> None
      | Some (x, r) \<Rightarrow>
          (case json_ws r of
             [] \<Rightarrow> None
           | c # r' \<Rightarrow>
               if c = CHR '','' 
               then (case json_items r' of None \<Rightarrow> None | Some (xs, rest) \<Rightarrow> Some (x # xs, rest))
               else if c = CHR '']'' then Some ([x], r')
               else None))"
  by pat_completeness auto

function json_members :: "string \<Rightarrow> ((string \<times> string) list \<times> string) option" where
  "json_members s =
     (case json_member s of
        None \<Rightarrow> None
      | Some (x, r) \<Rightarrow>
          (case json_ws r of
             [] \<Rightarrow> None
           | c # r' \<Rightarrow>
               if c = CHR '','' 
               then (case json_members r' of None \<Rightarrow> None | Some (xs, rest) \<Rightarrow> Some (x # xs, rest))
               else if c = CHR ''}'' then Some ([x], r')
               else None))"
  by pat_completeness auto

definition json_loads_list :: "string \<Rightarrow> string list option" where
  "json_loads_list s =
     (case json_ws s of
        [] \<Rightarrow> None
      | c # r \<Rightarrow>
          if c = CHR ''['' 
          then (case json_ws r of
                  [] \<Rightarrow> None
                | d # r' \<Rightarrow>
                    if d = CHR '']'' then (if json_ws r' = [] then Some [] else None)
                    else (case json_items r of
                            None \<Rightarrow> None
                          | Some (xs, rest) \<Rightarrow> if json_ws rest = [] then Some xs else None))
          else None)"

definition json_loads_dict :: "string \<Rightarrow> (string \<times> string) list option" where
  "json_loads_dict s =
     (case json_ws s of
        [] \<Rightarrow> None
      | c # r \<Rightarrow>
          if c = CHR ''{'' 
          then (case json_ws r of
                  [] \<Rightarrow> None
                | d # r' \<Rightarrow>
                    if d = CHR ''}'' then (if json_ws r' = [] then Some [] else None)
                    else (case json_members r of
                            None \<Rightarrow> None
                          | Some (xs, rest) \<Rightarrow> if json_ws rest = [] then Some xs else None))
          else None)"

subsection \<open>Module level: \<^verbatim>\<open>MOZART_URL\<close> and \<^verbatim>\<open>JOB_SUBMIT_URL\<close>\<close>

definition load_module :: "environ \<Rightarrow> error + string" where
  "load_module env =
     (case env ''MOZART_URL'' of
        None \<Rightarrow> Inl RuntimeError
      | Some MOZART_URL \<Rightarrow> Inr (MOZART_URL @ ''/api/v0.1/job/submit?enable_dedup=false''))"

subsection \<open>\<^verbatim>\<open>submit_job\<close>\<close>

text \<open>
  \<open>raise_for_status\<close> of requests raises HTTPError for a status code from 400 to 599
  and for no other. The optional \<^verbatim>\<open>priority=0\<close> is an \<open>int option\<close>. The result is
  paired with the requests sent: the one POST, issued before anything is read from
  the response.
\<close>

definition raise_for_status :: "response \<Rightarrow> error + unit" where
  "raise_for_status req =
     (if 400 \<le> status_code req \<and> status_code req < 600
      then Inl (HTTPError (status_code req)) else Inr ())"

text \<open>
  \<^verbatim>\<open>req.json()\<close> parses the content that the HTTP client has read. A response with a
  status code 1xx, 204 or 304 has no content (RFC 9110; \<^verbatim>\<open>http.client\<close> sets the length
  of its body to zero), and the empty content is not JSON.
\<close>

definition no_content :: "int \<Rightarrow> bool" where
  "no_content status = (100 \<le> status \<and> status < 200 \<or> status = 204 \<or> status = 304)"

definition response_json :: "response \<Rightarrow> error + json" where
  "response_json req =
     (if no_content (status_code req) then Inl JSONDecodeError
      else case json_body req of None \<Rightarrow> Inl JSONDecodeError | Some j \<Rightarrow> Inr j)"

text \<open>
  Lines 56 to 65. \<^verbatim>\<open>result.keys()\<close> exists on a \<^verbatim>\<open>dict\<close> only; on any other JSON
  value it is an AttributeError.
\<close>

definition job_id_of :: "json \<Rightarrow> error + json" where
  "job_id_of result =
     (case result of
        JObject kvs \<Rightarrow>
          (case (map_of kvs ''result'', map_of kvs ''success'') of
             (Some job_id, Some success) \<Rightarrow>
               if success = JBool True then Inr job_id else Inl (JobNotSubmitted result)
           | _ \<Rightarrow> Inl (JobNotSubmitted result))
      | _ \<Rightarrow> Inl AttributeError)"

text \<open>Lines 35 to 42 and 47: the form fields and the request they are posted with.\<close>

definition job_request ::
  "string \<Rightarrow> string \<Rightarrow> string \<Rightarrow> (string \<times> string) list \<Rightarrow> string \<Rightarrow> string list
     \<Rightarrow> int option \<Rightarrow> request" where
  "job_request JOB_SUBMIT_URL job_name job_spec job_params queue tags priority =
     (let params = [(''queue'', FormStr queue),
                    (''priority'', FormInt (case priority of None \<Rightarrow> 0 | Some p \<Rightarrow> p)),
                    (''tags'', FormStr (json_dumps_list tags)),
                    (''type'', FormStr job_spec),
                    (''params'', FormStr (json_dumps_dict job_params)),
                    (''name'', FormStr job_name)]
      in \<lparr>url = JOB_SUBMIT_URL, data = params, verify = False\<rparr>)"

definition submit_job ::
  "world \<Rightarrow> string \<Rightarrow> string \<Rightarrow> string \<Rightarrow> (string \<times> string) list \<Rightarrow> string \<Rightarrow> string list
     \<Rightarrow> int option \<Rightarrow> (error + json) \<times> request list" where
  "submit_job w JOB_SUBMIT_URL job_name job_spec job_params queue tags priority =
     (let sent = job_request JOB_SUBMIT_URL job_name job_spec job_params queue tags priority
      in (err_bind (post w sent) (\<lambda>req.
          err_bind (raise_for_status req) (\<lambda>_.
          err_bind (response_json req) job_id_of)),
          [sent]))"

subsection \<open>\<^verbatim>\<open>get_temporal_start_datetime\<close>\<close>

text \<open>
  The body of the \<^verbatim>\<open>try\<close> is \<open>temporal_start_from_margin\<close>; \<^verbatim>\<open>except Exception\<close>
  catches whatever it raises, the ValueError of \<^verbatim>\<open>int\<close> and the OverflowError of the
  subtraction alike.
\<close>

definition temporal_start_from_margin :: "environ \<Rightarrow> datetime \<Rightarrow> error + string" where
  "temporal_start_from_margin env query_end_datetime =
     (let temporal_start_datetime_margin_days =
            environ_get env ''TEMPORAL_START_DATETIME_MARGIN_DAYS'' ''''
      in case py_int temporal_start_datetime_margin_days of
           None \<Rightarrow> Inl ValueError
         | Some d \<Rightarrow>
             err_bind (datetime_sub query_end_datetime \<lparr>rd_days = d, rd_minutes = 0\<rparr>)
               (\<lambda>t. Inr (strftime t DATETIME_FORMAT)))"

definition get_temporal_start_datetime :: "environ \<Rightarrow> datetime \<Rightarrow> string" where
  "get_temporal_start_datetime env query_end_datetime =
     (case temporal_start_from_margin env query_end_datetime of
        Inr temporal_start_datetime \<Rightarrow> temporal_start_datetime
      | Inl _ \<Rightarrow> environ_get env ''TEMPORAL_START_DATETIME'' '''')"

subsection \<open>\<^verbatim>\<open>lambda_handler\<close>\<close>

record job =
  job_name :: string
  job_spec :: string
  job_params :: "(string \<times> string) list"
  queue :: string
  tags :: "string list"

text \<open>Line 82: the digits of \<^verbatim>\<open>MINUTES\<close>; \<^verbatim>\<open>.group()\<close> on no match is an AttributeError.\<close>

definition minutes_of :: "environ \<Rightarrow> error + string" where
  "minutes_of env =
     err_bind (environ_getitem env ''MINUTES'') (\<lambda>s.
       case search_digits s of None \<Rightarrow> Inl AttributeError | Some ds \<Rightarrow> Inr ds)"

definition to_int :: "string \<Rightarrow> error + int" where
  "to_int s = (case py_int s of None \<Rightarrow> Inl ValueError | Some i \<Rightarrow> Inr i)"

text \<open>Lines 100 to 103: \<^verbatim>\<open>f'{token if strtobool(os.environ[k]) else ""}'\<close>.\<close>

definition flag :: "environ \<Rightarrow> string \<Rightarrow> string \<Rightarrow> error + string" where
  "flag env k token =
     err_bind (environ_getitem env k) (\<lambda>v.
     err_bind (strtobool v) (\<lambda>b. Inr (if b then token else '''')))"

text \<open>
  Lines 79 to 109 of the handler, in the order of evaluation of the source:
  everything up to the call of \<^verbatim>\<open>submit_job\<close>.
\<close>

definition prepare_job :: "world \<Rightarrow> environ \<Rightarrow> event \<Rightarrow> error + job" where
  "prepare_job w env ev =
     err_bind (case ev ''time'' of None \<Rightarrow> Inl (KeyError ''time'') | Some t \<Rightarrow> Inr t) (\<lambda>time.
     err_bind (isoparse w time) (\<lambda>query_end_datetime.
     err_bind (minutes_of env) (\<lambda>minutes.
     err_bind (to_int minutes) (\<lambda>m.
     err_bind (datetime_add query_end_datetime \<lparr>rd_days = 0, rd_minutes = - m\<rparr>)
       (\<lambda>query_start_datetime.
     let temporal_start_datetime = get_temporal_start_datetime env query_end_datetime;
         bounding_box = env ''BOUNDING_BOX''
     in
     err_bind (environ_getitem env ''JOB_TYPE'') (\<lambda>job_type.
     err_bind (environ_getitem env ''JOB_RELEASE'') (\<lambda>job_release.
     err_bind (environ_getitem env ''JOB_QUEUE'') (\<lambda>queue.
     err_bind (environ_getitem env ''ENDPOINT'') (\<lambda>endpoint.
     err_bind (environ_getitem env ''JOB_RELEASE'') (\<lambda>release_version.
     err_bind (environ_getitem env ''DOWNLOAD_JOB_QUEUE'') (\<lambda>download_job_queue.
     err_bind (environ_getitem env ''CHUNK_SIZE'') (\<lambda>chunk_size.
     err_bind (flag env ''SMOKE_RUN'' ''--smoke-run'') (\<lambda>smoke_run.
     err_bind (flag env ''DRY_RUN'' ''--dry-run'') (\<lambda>dry_run.
     err_bind (flag env ''NO_SCHEDULE_DOWNLOAD'' ''--no-schedule-download'')
       (\<lambda>no_schedule_download.
     err_bind (flag env ''USE_TEMPORAL'' ''--use-temporal'') (\<lambda>use_temporal.
     Inr \<lparr>job_name = ''data-subscriber-query-timer-''
                       @ strftime (utcnow w) JOB_NAME_DATETIME_FORMAT @ ''_'' @ minutes,
          job_spec = ''job-'' @ job_type @ '':'' @ job_release,
          job_params =
            [(''start_datetime'',
                ''--start-date='' @ strftime query_start_datetime DATETIME_FORMAT),
             (''end_datetime'', ''--end-date='' @ strftime query_end_datetime DATETIME_FORMAT),
             (''endpoint'', ''--endpoint='' @ endpoint),
             (''download_job_release'', ''--release-version='' @ release_version),
             (''download_job_queue'', ''--job-queue='' @ download_job_queue),
             (''chunk_size'', ''--chunk-size='' @ chunk_size),
             (''smoke_run'', smoke_run),
             (''dry_run'', dry_run),
             (''no_schedule_download'', no_schedule_download),
             (''use_temporal'', use_temporal),
             (''temporal_start_datetime'',
                if temporal_start_datetime \<noteq> ''''
                then ''--temporal-start-date='' @ temporal_start_datetime else ''''),
             (''bounding_box'',
                case bounding_box of
                  None \<Rightarrow> ''''
                | Some b \<Rightarrow> if b \<noteq> '''' then ''--bounds='' @ b else '''')],
          queue = queue,
          tags = [''data-subscriber-query-timer'']\<rparr>))))))))))))))))"

definition lambda_handler ::
  "world \<Rightarrow> string \<Rightarrow> environ \<Rightarrow> event \<Rightarrow> (error + json) \<times> request list" where
  "lambda_handler w JOB_SUBMIT_URL env ev =
     (case prepare_job w env ev of
        Inl e \<Rightarrow> (Inl e, [])
      | Inr j \<Rightarrow>
          submit_job w JOB_SUBMIT_URL (job_name j) (job_spec j) (job_params j) (queue j) (tags j)
            None)"

text \<open>One invocation on a fresh runtime: the module is loaded, then the handler runs.\<close>

definition invocation :: "world \<Rightarrow> environ \<Rightarrow> event \<Rightarrow> (error + json) \<times> request list" where
  "invocation w env ev =
     (case load_module env of
        Inl e \<Rightarrow> (Inl e, [])
      | Inr JOB_SUBMIT_URL \<Rightarrow> lambda_handler w JOB_SUBMIT_URL env ev)"

subsection \<open>Tables and readers used by the statements\<close>

text \<open>
  The configuration the source reads with \<^verbatim>\<open>os.environ[...]\<close> (the module for
  \<^verbatim>\<open>MOZART_URL\<close>, the handler for the rest), and the four flags of lines 100 to 103:
  the name in the environment, the key in the job parameters, and the token.
\<close>

definition REQUIRED :: "string list" where
  "REQUIRED = [''MOZART_URL'', ''MINUTES'', ''JOB_TYPE'', ''JOB_RELEASE'', ''JOB_QUEUE'',
               ''ENDPOINT'', ''DOWNLOAD_JOB_QUEUE'', ''CHUNK_SIZE'', ''SMOKE_RUN'', ''DRY_RUN'',
               ''NO_SCHEDULE_DOWNLOAD'', ''USE_TEMPORAL'']"

definition FLAGS :: "(string \<times> string \<times> string) list" where
  "FLAGS = [(''SMOKE_RUN'', ''smoke_run'', ''--smoke-run''),
            (''DRY_RUN'', ''dry_run'', ''--dry-run''),
            (''NO_SCHEDULE_DOWNLOAD'', ''no_schedule_download'', ''--no-schedule-download''),
            (''USE_TEMPORAL'', ''use_temporal'', ''--use-temporal'')]"

definition PARAM_KEYS :: "string list" where
  "PARAM_KEYS = [''start_datetime'', ''end_datetime'', ''endpoint'', ''download_job_release'',
                 ''download_job_queue'', ''chunk_size'', ''smoke_run'', ''dry_run'',
                 ''no_schedule_download'', ''use_temporal'', ''temporal_start_datetime'',
                 ''bounding_box'']"

definition FORM_KEYS :: "string list" where
  "FORM_KEYS = [''queue'', ''priority'', ''tags'', ''type'', ''params'', ''name'']"

text \<open>
  The rest of the configuration the handler reads after the window: the six settings
  are present and the four flags are truth values of \<^verbatim>\<open>strtobool\<close>.
\<close>

definition SETTINGS :: "string list" where
  "SETTINGS = [''JOB_TYPE'', ''JOB_RELEASE'', ''JOB_QUEUE'', ''ENDPOINT'',
               ''DOWNLOAD_JOB_QUEUE'', ''CHUNK_SIZE'']"

definition configured :: "environ \<Rightarrow> bool" where
  "configured env =
     ((\<forall>k \<in> set SETTINGS. env k \<noteq> None)
      \<and> (\<forall>(k, key, token) \<in> set FLAGS.
            case env k of None \<Rightarrow> False | Some v \<Rightarrow> strtobool v \<noteq> Inl ValueError))"

text \<open>The job parameter under a key, when the job was prepared.\<close>

definition job_param :: "error + job \<Rightarrow> string \<Rightarrow> string option" where
  "job_param r k = (case r of Inl _ \<Rightarrow> None | Inr j \<Rightarrow> map_of (job_params j) k)"

text \<open>
  The last step of \<open>ord2ymd\<close> on its own, the month and the day from the day of the
  year, and what is to be shown of it: a month, a day of that month, and the day of
  the year back.
\<close>

definition month_day :: "int \<Rightarrow> bool \<Rightarrow> int \<times> int" where
  "month_day n leapyear =
    (let month = (n + 50) div 32;
         preceding = DAYS_BEFORE_MONTH ! nat month + (if month > 2 \<and> leapyear then 1 else 0);
         (month, preceding) =
            (if preceding > n
             then (month - 1,
                   preceding - (DAYS_IN_MONTH ! nat (month - 1)
                                + (if month - 1 = 2 \<and> leapyear then 1 else 0)))
             else (month, preceding))
     in (month, n - preceding + 1))"

definition month_day_ok :: "int \<Rightarrow> bool \<Rightarrow> bool" where
  "month_day_ok n leapyear =
     (case month_day n leapyear of (m, d) \<Rightarrow>
        1 \<le> m \<and> m \<le> 12 \<and> 1 \<le> d
        \<and> d \<le> (if m = 2 \<and> leapyear then 29 else DAYS_IN_MONTH ! nat m)
        \<and> DAYS_BEFORE_MONTH ! nat m + (if m > 2 \<and> leapyear then 1 else 0) + d = n + 1)"

subsection \<open>Concrete invocations\<close>

text \<open>
  A complete configuration with a window of five minutes, a clock, a job service
  that accepts every job as \<^verbatim>\<open>job-123\<close>, the event of 2024-01-01T00:10:00Z, and the
  job the handler prepares from them.
\<close>

definition example_environ :: environ where
  "example_environ = map_of
     [(''MOZART_URL'', ''https://mozart''), (''MINUTES'', ''5''),
      (''JOB_TYPE'', ''data-subscriber-query''), (''JOB_RELEASE'', ''1.0.0''),
      (''JOB_QUEUE'', ''factotum-job_worker-small''), (''ENDPOINT'', ''OPS''),
      (''DOWNLOAD_JOB_QUEUE'', ''download''), (''CHUNK_SIZE'', ''2''),
      (''SMOKE_RUN'', ''true''), (''DRY_RUN'', ''false''),
      (''NO_SCHEDULE_DOWNLOAD'', ''False''), (''USE_TEMPORAL'', ''1''),
      (''TEMPORAL_START_DATETIME_MARGIN_DAYS'', ''3''),
      (''BOUNDING_BOX'', ''-180,-90,180,90'')]"

definition example_now :: datetime where
  "example_now = \<lparr>year = 2024, month = 1, day = 1, hour = 0, minute = 10, second = 7,
                   microsecond = 0, tzinfo = None\<rparr>"

definition accepted :: response where
  "accepted = \<lparr>status_code = 200,
                json_body = Some (JObject [(''success'', JBool True),
                                           (''result'', JString ''job-123'')])\<rparr>"

definition example_world :: world where
  "example_world = \<lparr>isoparse = isoparse_utc, utcnow = example_now, post = (\<lambda>_. Inr accepted)\<rparr>"

definition example_event :: event where
  "example_event = map_of [(''time'', ''2024-01-01T00:10:00Z'')]"

definition example_end :: datetime where
  "example_end = \<lparr>year = 2024, month = 1, day = 1, hour = 0, minute = 10, second = 0,
                   microsecond = 0, tzinfo = Some UTC\<rparr>"

definition example_job :: job where
  "example_job =
     \<lparr>job_name = ''data-subscriber-query-timer-20240101T001007_5'',
      job_spec = ''job-data-subscriber-query:1.0.0'',
      job_params =
        [(''start_datetime'', ''--start-date=2024-01-01T00:05:00Z''),
         (''end_datetime'', ''--end-date=2024-01-01T00:10:00Z''),
         (''endpoint'', ''--endpoint=OPS''),
         (''download_job_release'', ''--release-version=1.0.0''),
         (''download_job_queue'', ''--job-queue=download''),
         (''chunk_size'', ''--chunk-size=2''),
         (''smoke_run'', ''--smoke-run''),
         (''dry_run'', ''''),
         (''no_schedule_download'', ''''),
         (''use_temporal'', ''--use-temporal''),
         (''temporal_start_datetime'', ''--temporal-start-date=2023-12-29T00:10:00Z''),
         (''bounding_box'', ''--bounds=-180,-90,180,90'')],
      queue = ''factotum-job_worker-small'',
      tags = [''data-subscriber-query-timer'']\<rparr>"

definition example_request :: request where
  "example_request =
     job_request ''https://mozart/api/v0.1/job/submit?enable_dedup=false''
       (job_name example_job) (job_spec example_job) (job_params example_job)
       (queue example_job) (tags example_job) None"

text \<open>
  The texts that \<^verbatim>\<open>json.dumps\<close> writes for the tag list and for the job parameters of
  \<open>example_job\<close>.
\<close>

definition example_tags_json :: string where
  "example_tags_json = ''[\"data-subscriber-query-timer\"]''"

definition example_params_json :: string where
  "example_params_json =
     ''{\"start_datetime\": \"--start-date=2024-01-01T00:05:00Z\", ''
     @ ''\"end_datetime\": \"--end-date=2024-01-01T00:10:00Z\", ''
     @ ''\"endpoint\": \"--endpoint=OPS\", ''
     @ ''\"download_job_release\": \"--release-version=1.0.0\", ''
     @ ''\"download_job_queue\": \"--job-queue=download\", ''
     @ ''\"chunk_size\": \"--chunk-size=2\", ''
     @ ''\"smoke_run\": \"--smoke-run\", ''
     @ ''\"dry_run\": \"\", ''
     @ ''\"no_schedule_download\": \"\", ''
     @ ''\"use_temporal\": \"--use-temporal\", ''
     @ ''\"temporal_start_datetime\": \"--temporal-start-date=2023-12-29T00:10:00Z\", ''
     @ ''\"bounding_box\": \"--bounds=-180,-90,180,90\"}''"

text \<open>The starts of the windows of 5 and of 15 minutes that end at \<open>example_end\<close>.\<close>

definition example_start :: datetime where
  "example_start = \<lparr>year = 2024, month = 1, day = 1, hour = 0, minute = 5, second = 0,
                     microsecond = 0, tzinfo = Some UTC\<rparr>"

definition quarter_start :: datetime where
  "quarter_start = \<lparr>year = 2023, month = 12, day = 31, hour = 23, minute = 55, second = 0,
                     microsecond = 0, tzinfo = Some UTC\<rparr>"

text \<open>
  The same configuration without a bounding box and without a temporal start, and the
  job the handler prepares from it.
\<close>

definition bare_environ :: environ where
  "bare_environ = example_environ(''TEMPORAL_START_DATETIME_MARGIN_DAYS'' := None,
                                  ''BOUNDING_BOX'' := None)"

definition bare_job :: job where
  "bare_job =
     \<lparr>job_name = ''data-subscriber-query-timer-20240101T001007_5'',
      job_spec = ''job-data-subscriber-query:1.0.0'',
      job_params =
        [(''start_datetime'', ''--start-date=2024-01-01T00:05:00Z''),
         (''end_datetime'', ''--end-date=2024-01-01T00:10:00Z''),
         (''endpoint'', ''--endpoint=OPS''),
         (''download_job_release'', ''--release-version=1.0.0''),
         (''download_job_queue'', ''--job-queue=download''),
         (''chunk_size'', ''--chunk-size=2''),
         (''smoke_run'', ''--smoke-run''),
         (''dry_run'', ''''),
         (''no_schedule_download'', ''''),
         (''use_temporal'', ''--use-temporal''),
         (''temporal_start_datetime'', ''''),
         (''bounding_box'', '''')],
      queue = ''factotum-job_worker-small'',
      tags = [''data-subscriber-query-timer'']\<rparr>"

text \<open>
  Variations: a flag that is no truth value, a setting that is missing, a timestamp
  that is no timestamp, a window given as \<^verbatim>\<open>15min\<close>, as \<^verbatim>\<open>-5\<close> and without a digit.
\<close>

definition malformed_environ :: environ where
  "malformed_environ = example_environ(''DRY_RUN'' \<mapsto> ''maybe'')"

definition incomplete_environ :: environ where
  "incomplete_environ = example_environ(''ENDPOINT'' := None)"

definition garbled_event :: event where
  "garbled_event = map_of [(''time'', ''yesterday'')]"

definition quarter_environ :: environ where
  "quarter_environ = example_environ(''MINUTES'' \<mapsto> ''15min'')"

definition minus_environ :: environ where
  "minus_environ = example_environ(''MINUTES'' \<mapsto> ''-5'')"

definition wordy_environ :: environ where
  "wordy_environ = example_environ(''MINUTES'' \<mapsto> ''five'')"











text \<open>
  An event of the year 999; a margin of four million days, with no literal to fall
  back on; and a configuration with a literal and no margin.
\<close>

definition early_event :: event where
  "early_event = map_of [(''time'', ''0999-01-01T00:10:00Z'')]"

definition far_margin_environ :: environ where
  "far_margin_environ =
     example_environ(''TEMPORAL_START_DATETIME_MARGIN_DAYS'' \<mapsto> ''4000000'')"

definition literal_environ :: environ where
  "literal_environ =
     example_environ(''TEMPORAL_START_DATETIME_MARGIN_DAYS'' := None,
                     ''TEMPORAL_START_DATETIME'' \<mapsto> ''2020-01-01T00:00:00Z'')"

section \<open>The calendar\<close>

lemma days_before_year_Suc:
  "days_before_year (y + 1) = y * 365 + y div 4 - y div 100 + y div 400"
  unfolding days_before_year_def Let_def by simp

lemma days_before_year_cycles:
  fixes n400 n100 n4 n1 :: int
  assumes "0 \<le> n100" "n100 \<le> 3" "0 \<le> n4" "n4 \<le> 24" "0 \<le> n1" "n1 \<le> 3"
  shows "days_before_year (n400 * 400 + 1 + n100 * 100 + n4 * 4 + n1)
         = 146097 * n400 + 36524 * n100 + 1461 * n4 + 365 * n1"
proof -
  let ?y = "n400 * 400 + n100 * 100 + n4 * 4 + n1"
  have d4: "?y div 4 = 100 * n400 + 25 * n100 + n4"
    by (rule int_div_pos_eq [where r = n1]) (use assms in simp_all)
  have d100: "?y div 100 = 4 * n400 + n100"
    by (rule int_div_pos_eq [where r = "n4 * 4 + n1"]) (use assms in simp_all)
  have d400: "?y div 400 = n400"
    by (rule int_div_pos_eq [where r = "n100 * 100 + n4 * 4 + n1"]) (use assms in simp_all)
  have "days_before_year (?y + 1) = ?y * 365 + ?y div 4 - ?y div 100 + ?y div 400"
    by (rule days_before_year_Suc)
  also have "\<dots> = 146097 * n400 + 36524 * n100 + 1461 * n4 + 365 * n1"
    unfolding d4 d100 d400 by simp
  finally show ?thesis by (simp add: algebra_simps)
qed

lemma mod_zero_range:
  fixes x k :: int
  assumes "0 < x" "x \<le> k"
  shows "(x mod k = 0) = (x = k)"
proof (cases "x = k")
  case True
  then show ?thesis by simp
next
  case False
  with assms have "x mod k = x" by simp
  with assms False show ?thesis by simp
qed

lemma is_leap_cycles:
  fixes n400 n100 n4 n1 :: int
  assumes "0 \<le> n100" "n100 \<le> 3" "0 \<le> n4" "n4 \<le> 24" "0 \<le> n1" "n1 \<le> 3"
  shows "is_leap (n400 * 400 + 1 + n100 * 100 + n4 * 4 + n1)
         = (n1 = 3 \<and> (n4 \<noteq> 24 \<or> n100 = 3))"
proof -
  let ?y = "n400 * 400 + 1 + n100 * 100 + n4 * 4 + n1"
  have "?y = (n1 + 1) + 4 * (n400 * 100 + n100 * 25 + n4)" by simp
  then have m4: "?y mod 4 = (n1 + 1) mod 4"
    by (simp only: mod_mult_self2)
  have "?y = (n4 * 4 + n1 + 1) + 100 * (n400 * 4 + n100)" by simp
  then have m100: "?y mod 100 = (n4 * 4 + n1 + 1) mod 100"
    by (simp only: mod_mult_self2)
  have "?y = (n100 * 100 + n4 * 4 + n1 + 1) + 400 * n400" by simp
  then have m400: "?y mod 400 = (n100 * 100 + n4 * 4 + n1 + 1) mod 400"
    by (simp only: mod_mult_self2)
  have a: "((n1 + 1) mod 4 = 0) = (n1 = 3)"
    using mod_zero_range [of "n1 + 1" 4] assms by auto
  have "(n4 * 4 + n1 + 1 = 100) = (n4 = 24 \<and> n1 = 3)"
    using assms by arith
  then have b: "((n4 * 4 + n1 + 1) mod 100 = 0) = (n4 = 24 \<and> n1 = 3)"
    using mod_zero_range [of "n4 * 4 + n1 + 1" 100] assms by simp
  have "(n100 * 100 + n4 * 4 + n1 + 1 = 400) = (n100 = 3 \<and> n4 = 24 \<and> n1 = 3)"
    using assms by arith
  then have c: "((n100 * 100 + n4 * 4 + n1 + 1) mod 400 = 0) = (n100 = 3 \<and> n4 = 24 \<and> n1 = 3)"
    using mod_zero_range [of "n100 * 100 + n4 * 4 + n1 + 1" 400] assms by simp
  show ?thesis
    unfolding is_leap_def m4 m100 m400 a b c by auto
qed

lemma div_step:
  fixes y k :: int
  assumes "0 < k"
  shows "y div k = (y - 1) div k + (if y mod k = 0 then 1 else 0)"
proof (cases "y mod k = 0")
  case True
  have "(y - 1) div k = y div k - 1"
  proof (rule int_div_pos_eq [where r = "k - 1"])
    show "y - 1 = k * (y div k - 1) + (k - 1)"
      using True mult_div_mod_eq [of k y] by (simp add: algebra_simps)
  qed (use assms in simp_all)
  with True show ?thesis by simp
next
  case False
  have "(y - 1) div k = y div k"
  proof (rule int_div_pos_eq [where r = "y mod k - 1"])
    show "y - 1 = k * (y div k) + (y mod k - 1)"
      using mult_div_mod_eq [of k y] by simp
    have "0 \<le> y mod k" using assms by simp
    with False show "0 \<le> y mod k - 1" by simp
    show "y mod k - 1 < k" using pos_mod_bound [OF assms, of y] by linarith
  qed
  with False show ?thesis by simp
qed

lemma leap_indicator:
  fixes a b c :: bool
  assumes "c \<Longrightarrow> b" "b \<Longrightarrow> a"
  shows "(if a \<and> (\<not> b \<or> c) then 1 else 0 :: int)
         = (if a then 1 else 0) - (if b then 1 else 0) + (if c then 1 else 0)"
  using assms by (cases a; cases b; cases c) simp_all

lemma year_length:
  "days_before_year (y + 1) = days_before_year y + 365 + (if is_leap y then 1 else 0)"
proof -
  have d: "days_before_year (y + 1) - days_before_year y
        = 365 + (y div 4 - (y - 1) div 4) - (y div 100 - (y - 1) div 100)
              + (y div 400 - (y - 1) div 400)"
    unfolding days_before_year_def Let_def by (simp add: algebra_simps)
  have e4: "y div 4 - (y - 1) div 4 = (if y mod 4 = 0 then 1 else 0)"
    using div_step [of 4 y] by simp
  have e100: "y div 100 - (y - 1) div 100 = (if y mod 100 = 0 then 1 else 0)"
    using div_step [of 100 y] by simp
  have e400: "y div 400 - (y - 1) div 400 = (if y mod 400 = 0 then 1 else 0)"
    using div_step [of 400 y] by simp
  have i1: "y mod 400 = 0 \<Longrightarrow> y mod 100 = 0"
    by (simp add: mod_eq_0_iff_dvd)
       (metis dvd_trans numeral_times_numeral semiring_norm(12,13) mult.commute dvd_triv_left)
  have i2: "y mod 100 = 0 \<Longrightarrow> y mod 4 = 0"
    by presburger
  have "(if is_leap y then 1 else 0 :: int)
        = (if y mod 4 = 0 then 1 else 0) - (if y mod 100 = 0 then 1 else 0)
          + (if y mod 400 = 0 then 1 else 0)"
    unfolding is_leap_def
    by (rule leap_indicator [where a = "y mod 4 = 0" and b = "y mod 100 = 0" and c = "y mod 400 = 0"])
       (erule i1, erule i2)
  then have "days_before_year (y + 1) - days_before_year y = 365 + (if is_leap y then 1 else 0)"
    unfolding d e4 e100 e400 by simp
  then show ?thesis by simp
qed

lemma days_before_year_mono:
  assumes "y \<le> z"
  shows "days_before_year y \<le> days_before_year z"
  using assms
proof (induction z rule: int_ge_induct)
  case base
  show ?case by simp
next
  case (step i)
  have "days_before_year i \<le> days_before_year (i + 1)"
    unfolding year_length by simp
  with step show ?case by simp
qed

lemma month_day_all: "\<forall>n \<in> set [0..364]. month_day_ok n True \<and> month_day_ok n False"
  by code_simp

lemma month_day_ok_range: "0 \<le> n \<Longrightarrow> n \<le> 364 \<Longrightarrow> month_day_ok n leapyear"
  using month_day_all by (cases leapyear) auto

lemma ord2ymd_correct:
  assumes "0 < n"
  shows "case ord2ymd n of (y, m, d) \<Rightarrow>
           ymd2ord y m d = n \<and> 1 \<le> y \<and> 1 \<le> m \<and> m \<le> 12 \<and> 1 \<le> d \<and> d \<le> days_in_month y m"
proof -
  define n400 where "n400 = (n - 1) div 146097"
  define r1 where "r1 = (n - 1) mod 146097"
  define n100 where "n100 = r1 div 36524"
  define r2 where "r2 = r1 mod 36524"
  define n4 where "n4 = r2 div 1461"
  define r3 where "r3 = r2 mod 1461"
  define n1 where "n1 = r3 div 365"
  define r4 where "r4 = r3 mod 365"
  define Y where "Y = n400 * 400 + 1 + n100 * 100 + n4 * 4 + n1"
  have e1: "n - 1 = 146097 * n400 + r1" and b1: "0 \<le> r1" "r1 < 146097"
    by (simp_all add: n400_def r1_def)
  have e2: "r1 = 36524 * n100 + r2" and b2: "0 \<le> r2" "r2 < 36524"
    by (simp_all add: n100_def r2_def)
  have e3: "r2 = 1461 * n4 + r3" and b3: "0 \<le> r3" "r3 < 1461"
    by (simp_all add: n4_def r3_def)
  have e4: "r3 = 365 * n1 + r4" and b4: "0 \<le> r4" "r4 < 365"
    by (simp_all add: n1_def r4_def)
  have c400: "0 \<le> n400"
    using assms by (simp add: n400_def pos_imp_zdiv_nonneg_iff)
  have c100: "0 \<le> n100" "n100 \<le> 4"
    using e2 b1 b2 by arith+
  have c4: "0 \<le> n4" "n4 \<le> 24"
    using e3 b2 b3 by arith+
  have c1: "0 \<le> n1" "n1 \<le> 4"
    using e4 b3 b4 by arith+
  have Y1: "1 \<le> Y"
    unfolding Y_def using c400 c100 c4 c1 by simp
  have unf: "ord2ymd n =
     (if n1 = 4 \<or> n100 = 4 then (Y - 1, 12, 31)
      else case month_day r4 (n1 = 3 \<and> (n4 \<noteq> 24 \<or> n100 = 3)) of (m, d) \<Rightarrow> (Y, m, d))"
    unfolding ord2ymd_def month_day_def n400_def r1_def n100_def r2_def n4_def r3_def n1_def
      r4_def Y_def
    by (simp only: Let_def split_def fst_conv snd_conv)
  show ?thesis
  proof (cases "n1 = 4 \<or> n100 = 4")
    case False
    then have s: "n100 \<le> 3" "n1 \<le> 3" using c100 c1 by auto
    have dby: "days_before_year Y = n - 1 - r4"
      unfolding Y_def
      using days_before_year_cycles [OF c100(1) s(1) c4 c1(1) s(2), of n400] e1 e2 e3 e4
      by simp
    have lp: "(n1 = 3 \<and> (n4 \<noteq> 24 \<or> n100 = 3)) = is_leap Y"
      unfolding Y_def by (rule is_leap_cycles [OF c100(1) s(1) c4 c1(1) s(2), symmetric])
    have "r4 \<le> 364" using b4 by simp
    from month_day_ok_range [OF b4(1) this, of "is_leap Y"]
    obtain m d where md: "month_day r4 (is_leap Y) = (m, d)"
      and ok: "1 \<le> m" "m \<le> 12" "1 \<le> d"
        "d \<le> (if m = 2 \<and> is_leap Y then 29 else DAYS_IN_MONTH ! nat m)"
        "DAYS_BEFORE_MONTH ! nat m + (if m > 2 \<and> is_leap Y then 1 else 0) + d = r4 + 1"
      unfolding month_day_ok_def by (cases "month_day r4 (is_leap Y)") auto
    have res: "ord2ymd n = (Y, m, d)"
      unfolding unf lp using False md by simp
    have "ymd2ord Y m d = n"
      unfolding ymd2ord_def days_before_month_def dby using ok(5) by simp
    with ok Y1 show ?thesis
      unfolding res by (simp add: days_in_month_def)
  next
    case True
    have last_day: "ymd2ord (Y - 1) 12 31 = n \<and> 1 \<le> Y - 1"
      if Yv: "Y - 1 = k400 * 400 + k100 * 100 + k4 * 4"
        and nv: "n = 146097 * k400 + 36524 * k100 + 1461 * k4"
        and k: "0 \<le> k100" "k100 \<le> 3" "0 \<le> k4" "k4 \<le> 24" "0 \<le> k400"
      for k400 k100 k4
    proof -
      have eq: "k400 * 400 + 1 + k100 * 100 + k4 * 4 + 0 = Y - 1 + 1"
        using Yv by simp
      have "days_before_year (k400 * 400 + 1 + k100 * 100 + k4 * 4 + 0)
            = 146097 * k400 + 36524 * k100 + 1461 * k4 + 365 * 0"
        by (rule days_before_year_cycles) (use k in simp_all)
      then have "days_before_year (Y - 1 + 1) = n"
        unfolding eq nv by simp
      then have "days_before_year (Y - 1) + 365 + (if is_leap (Y - 1) then 1 else 0) = n"
        unfolding year_length .
      then have "ymd2ord (Y - 1) 12 31 = n"
        by (simp add: ymd2ord_def days_before_month_def DAYS_BEFORE_MONTH_def split: if_splits)
      moreover have "1 \<le> Y - 1"
      proof (rule ccontr)
        assume "\<not> 1 \<le> Y - 1"
        with Yv k have "k400 = 0" "k100 = 0" "k4 = 0" by arith+
        with nv assms show False by simp
      qed
      ultimately show ?thesis by simp
    qed
    have "ymd2ord (Y - 1) 12 31 = n \<and> 1 \<le> Y - 1"
    proof (cases "n100 = 4")
      case h: True
      have "r2 = 0" using e2 b1 b2 h by simp
      then have z: "n4 = 0" "n1 = 0" "r4 = 0"
        by (simp_all add: n4_def r3_def n1_def r4_def)
      show ?thesis
      proof (rule last_day [of "n400 + 1" 0 0])
        show "Y - 1 = (n400 + 1) * 400 + 0 * 100 + 0 * 4" unfolding Y_def using h z by simp
        show "n = 146097 * (n400 + 1) + 36524 * 0 + 1461 * 0" using e1 e2 h \<open>r2 = 0\<close> by simp
      qed (use c400 in simp_all)
    next
      case h: False
      with True have n1: "n1 = 4" by simp
      have s: "n100 \<le> 3" using h c100 by simp
      have r4: "r4 = 0" using e4 b3 b4 n1 by simp
      have n4: "n4 \<le> 23" using e3 e4 b2 n1 r4 c4 by arith
      show ?thesis
      proof (rule last_day [of n400 n100 "n4 + 1"])
        show "Y - 1 = n400 * 400 + n100 * 100 + (n4 + 1) * 4" unfolding Y_def using n1 by simp
        show "n = 146097 * n400 + 36524 * n100 + 1461 * (n4 + 1)"
          using e1 e2 e3 e4 n1 r4 by simp
      qed (use c400 c100 s c4 n4 in simp_all)
    qed
    then show ?thesis
      unfolding unf using True by (simp add: days_in_month_def DAYS_IN_MONTH_def)
  qed
qed

lemma ord2ymd_year_le:
  assumes "0 < n" "n \<le> MAXORDINAL" "ord2ymd n = (y, m, d)"
  shows "y \<le> 9999"
proof (rule ccontr)
  assume "\<not> y \<le> 9999"
  then have "10000 \<le> y" by simp
  then have "days_before_year 10000 \<le> days_before_year y"
    by (rule days_before_year_mono)
  moreover have "days_before_year 10000 = 3652059"
    by (simp add: days_before_year_def)
  moreover from ord2ymd_correct [OF assms(1)] assms(3)
  have c: "ymd2ord y m d = n" "1 \<le> m" "m \<le> 12" "1 \<le> d" by simp_all
  have "0 \<le> DAYS_BEFORE_MONTH ! nat m"
  proof -
    have "\<forall>k \<in> set [1..12]. 0 \<le> DAYS_BEFORE_MONTH ! nat k" by code_simp
    moreover from c have "m \<in> set [1..12]" by simp
    ultimately show ?thesis by blast
  qed
  then have "0 \<le> days_before_month y m" by (simp add: days_before_month_def)
  with c have "days_before_year y < n" by (simp add: ymd2ord_def)
  ultimately show False using assms(2) by (simp add: MAXORDINAL_def)
qed

section \<open>Adding to a datetime\<close>

lemma seconds_split:
  fixes r :: int
  shows "r div 3600 * 3600 + r mod 3600 div 60 * 60 + r mod 60 = r"
proof -
  have "r mod 3600 mod 60 = r mod 60"
    by (rule mod_mod_cancel) simp
  then have "r mod 3600 div 60 * 60 + r mod 60 = r mod 3600"
    using div_mult_mod_eq [of "r mod 3600" 60] by simp
  moreover have "r div 3600 * 3600 + r mod 3600 = r"
    by (rule div_mult_mod_eq)
  ultimately show ?thesis by linarith
qed

lemma datetime_add_cases:
  obtains (overflow) "datetime_add dt rd = Inl OverflowError"
      "\<not> (0 < (wall_seconds dt + rd_days rd * 86400 + rd_minutes rd * 60) div 86400
          \<and> (wall_seconds dt + rd_days rd * 86400 + rd_minutes rd * 60) div 86400 \<le> MAXORDINAL)"
  | (ok) t where "datetime_add dt rd = Inr t"
      "0 < (wall_seconds dt + rd_days rd * 86400 + rd_minutes rd * 60) div 86400"
      "(wall_seconds dt + rd_days rd * 86400 + rd_minutes rd * 60) div 86400 \<le> MAXORDINAL"
      "wall_seconds t = wall_seconds dt + rd_days rd * 86400 + rd_minutes rd * 60"
      "microsecond t = microsecond dt" "tzinfo t = tzinfo dt"
      "1 \<le> year t" "year t \<le> 9999" "1 \<le> month t" "month t \<le> 12"
      "1 \<le> day t" "day t \<le> days_in_month (year t) (month t)"
      "0 \<le> hour t" "hour t \<le> 23" "0 \<le> minute t" "minute t \<le> 59"
      "0 \<le> second t" "second t \<le> 59"
proof -
  define s where "s = hour dt * 3600 + minute dt * 60 + second dt + rd_minutes rd * 60"
  define days where "days = toordinal dt + rd_days rd + s div 86400"
  define rem where "rem = s mod 86400"
  have total: "wall_seconds dt + rd_days rd * 86400 + rd_minutes rd * 60
               = (toordinal dt + rd_days rd) * 86400 + s"
    by (simp add: wall_seconds_def s_def algebra_simps)
  have d: "(wall_seconds dt + rd_days rd * 86400 + rd_minutes rd * 60) div 86400 = days"
    unfolding total days_def by simp
  have rem: "0 \<le> rem" "rem < 86400" by (simp_all add: rem_def)
  have unf: "datetime_add dt rd =
     (if 0 < days \<and> days \<le> MAXORDINAL
      then (case ord2ymd days of (y, mo, d) \<Rightarrow>
              Inr (dt\<lparr>year := y, month := mo, day := d,
                      hour := rem div 3600, minute := rem mod 3600 div 60,
                      second := rem mod 60\<rparr>))
      else Inl OverflowError)"
    unfolding datetime_add_def s_def days_def rem_def by (simp only: Let_def)
  show thesis
  proof (cases "0 < days \<and> days \<le> MAXORDINAL")
    case False
    then have "datetime_add dt rd = Inl OverflowError"
      unfolding unf by (rule if_not_P)
    with False show ?thesis using overflow d by simp
  next
    case True
    obtain y mo dd where o: "ord2ymd days = (y, mo, dd)" by (cases "ord2ymd days")
    define t where "t = dt\<lparr>year := y, month := mo, day := dd, hour := rem div 3600,
      minute := rem mod 3600 div 60, second := rem mod 60\<rparr>"
    have r: "datetime_add dt rd = Inr t"
      unfolding unf t_def using True o by simp
    from ord2ymd_correct [of days] True o
    have c: "ymd2ord y mo dd = days" "1 \<le> y" "1 \<le> mo" "mo \<le> 12" "1 \<le> dd"
      "dd \<le> days_in_month y mo" by simp_all
    have y: "y \<le> 9999"
      using ord2ymd_year_le [of days y mo dd] True o by simp
    have "wall_seconds t = days * 86400 + rem"
      using seconds_split [of rem] by (simp add: wall_seconds_def toordinal_def t_def c(1))
    also have "\<dots> = wall_seconds dt + rd_days rd * 86400 + rd_minutes rd * 60"
      unfolding total days_def rem_def
      using div_mult_mod_eq [of s 86400] by (simp add: algebra_simps)
    finally have w: "wall_seconds t = wall_seconds dt + rd_days rd * 86400 + rd_minutes rd * 60" .
    have h: "0 \<le> rem div 3600" "rem div 3600 \<le> 23"
      using rem by arith+
    have fields: "year t = y" "month t = mo" "day t = dd" "hour t = rem div 3600"
      "minute t = rem mod 3600 div 60" "second t = rem mod 60"
      "microsecond t = microsecond dt" "tzinfo t = tzinfo dt"
      by (simp_all add: t_def)
    have mi: "0 \<le> rem mod 3600 div 60" "rem mod 3600 div 60 \<le> 59"
    proof -
      have "0 \<le> rem mod 3600" "rem mod 3600 < 3600" by simp_all
      then show "0 \<le> rem mod 3600 div 60" "rem mod 3600 div 60 \<le> 59" by arith+
    qed
    have se: "0 \<le> rem mod 60" "rem mod 60 \<le> 59"
    proof -
      have "rem mod 60 < 60" by simp
      then show "rem mod 60 \<le> 59" by simp
    qed simp
    have dd: "0 < (wall_seconds dt + rd_days rd * 86400 + rd_minutes rd * 60) div 86400"
      "(wall_seconds dt + rd_days rd * 86400 + rd_minutes rd * 60) div 86400 \<le> MAXORDINAL"
      unfolding d using True by simp_all
    show ?thesis
      by (rule ok [OF r dd w fields(7,8)]) (simp_all only: fields c y h mi se)
  qed
qed

lemma datetime_add_valid:
  assumes "datetime_add dt rd = Inr t" "valid_datetime dt"
  shows "valid_datetime t"
proof (cases dt rd rule: datetime_add_cases)
  case overflow
  with assms show ?thesis by simp
next
  case (ok t')
  with assms have "t' = t" by simp
  with ok assms(2) show ?thesis by (simp add: valid_datetime_def)
qed

lemma datetime_add_wall_seconds:
  assumes "datetime_add dt rd = Inr t"
  shows "wall_seconds t = wall_seconds dt + rd_days rd * 86400 + rd_minutes rd * 60"
    and "microsecond t = microsecond dt" and "tzinfo t = tzinfo dt"
proof -
  have "wall_seconds t = wall_seconds dt + rd_days rd * 86400 + rd_minutes rd * 60
        \<and> microsecond t = microsecond dt \<and> tzinfo t = tzinfo dt"
  proof (cases dt rd rule: datetime_add_cases)
    case overflow
    with assms show ?thesis by simp
  next
    case (ok t')
    with assms have "t' = t" by simp
    with ok show ?thesis by simp
  qed
  then show "wall_seconds t = wall_seconds dt + rd_days rd * 86400 + rd_minutes rd * 60"
    and "microsecond t = microsecond dt" and "tzinfo t = tzinfo dt" by simp_all
qed

lemma valid_datetime_day_seconds:
  assumes "valid_datetime dt"
  shows "(wall_seconds dt + k * 86400) div 86400 = toordinal dt + k"
proof -
  let ?s = "hour dt * 3600 + minute dt * 60 + second dt"
  have "0 \<le> ?s" "?s < 86400"
    using assms by (simp_all add: valid_datetime_def)
  then have "?s div 86400 = 0" by simp
  moreover have "wall_seconds dt + k * 86400 = ?s + (toordinal dt + k) * 86400"
    by (simp add: wall_seconds_def algebra_simps)
  ultimately show ?thesis by simp
qed

section \<open>A valid datetime is determined by its place on the time line\<close>

text \<open>
  Two valid dates with the same ordinal are the same date, and two valid datetimes
  with the same \<open>wall_seconds\<close>, microseconds and time zone are the same datetime.
  So to say that a datetime lies so many seconds before another on the time line,
  as the statements about the window and the margin do, says which datetime it is.
\<close>

lemma day_of_year_table:
  "\<forall>m \<in> set [1..12]. \<forall>leap \<in> set [True, False].
     0 \<le> DAYS_BEFORE_MONTH ! nat m
     \<and> DAYS_BEFORE_MONTH ! nat m + (if m > 2 \<and> leap then 1 else 0)
         + (if m = 2 \<and> leap then 29 else DAYS_IN_MONTH ! nat m)
       \<le> 365 + (if leap then 1 else 0)"
  by code_simp

lemma month_order_table:
  "\<forall>m \<in> set [1..12]. \<forall>m' \<in> set [1..12]. \<forall>leap \<in> set [True, False].
     m < m' \<longrightarrow>
       DAYS_BEFORE_MONTH ! nat m + (if m > 2 \<and> leap then 1 else 0)
         + (if m = 2 \<and> leap then 29 else DAYS_IN_MONTH ! nat m)
       \<le> DAYS_BEFORE_MONTH ! nat m' + (if m' > 2 \<and> leap then 1 else 0)"
  by code_simp

lemma day_of_year_bounds:
  assumes "1 \<le> m" "m \<le> 12" "1 \<le> d" "d \<le> days_in_month y m"
  shows "1 \<le> days_before_month y m + d"
    and "days_before_month y m + d \<le> 365 + (if is_leap y then 1 else 0)"
proof -
  from assms have m: "m \<in> set [1..12]" by simp
  have l: "is_leap y \<in> set [True, False]" by simp
  from day_of_year_table m l
  have t: "0 \<le> DAYS_BEFORE_MONTH ! nat m"
    "DAYS_BEFORE_MONTH ! nat m + (if m > 2 \<and> is_leap y then 1 else 0)
       + (if m = 2 \<and> is_leap y then 29 else DAYS_IN_MONTH ! nat m)
     \<le> 365 + (if is_leap y then 1 else 0)"
    by blast+
  from t(1) assms(3) show "1 \<le> days_before_month y m + d"
    by (simp add: days_before_month_def)
  from t(2) assms(4) show "days_before_month y m + d \<le> 365 + (if is_leap y then 1 else 0)"
    unfolding days_before_month_def days_in_month_def by linarith
qed

lemma month_order:
  assumes "1 \<le> m" "m \<le> 12" "1 \<le> m'" "m' \<le> 12" "m < m'"
    and "d \<le> days_in_month y m" "1 \<le> d'"
  shows "days_before_month y m + d < days_before_month y m' + d'"
proof -
  from assms have m: "m \<in> set [1..12]" "m' \<in> set [1..12]" by simp_all
  have l: "is_leap y \<in> set [True, False]" by simp
  from month_order_table m l assms(5)
  have "DAYS_BEFORE_MONTH ! nat m + (if m > 2 \<and> is_leap y then 1 else 0)
         + (if m = 2 \<and> is_leap y then 29 else DAYS_IN_MONTH ! nat m)
       \<le> DAYS_BEFORE_MONTH ! nat m' + (if m' > 2 \<and> is_leap y then 1 else 0)"
    by blast
  with assms(6,7) show ?thesis
    unfolding days_before_month_def days_in_month_def by linarith
qed

lemma ymd2ord_year_order:
  assumes "1 \<le> m" "m \<le> 12" "1 \<le> d" "d \<le> days_in_month y m"
    and "1 \<le> m'" "m' \<le> 12" "1 \<le> d'" "d' \<le> days_in_month y' m'"
    and "y < y'"
  shows "ymd2ord y m d < ymd2ord y' m' d'"
proof -
  have "ymd2ord y m d \<le> days_before_year y + 365 + (if is_leap y then 1 else 0)"
    using day_of_year_bounds(2) [OF assms(1-4)] by (simp add: ymd2ord_def)
  also have "\<dots> = days_before_year (y + 1)" by (simp add: year_length)
  also have "\<dots> \<le> days_before_year y'"
    using assms(9) by (intro days_before_year_mono) simp
  also have "\<dots> < ymd2ord y' m' d'"
    using day_of_year_bounds(1) [OF assms(5-8)] by (simp add: ymd2ord_def)
  finally show ?thesis .
qed

lemma ymd2ord_inj:
  assumes "1 \<le> m" "m \<le> 12" "1 \<le> d" "d \<le> days_in_month y m"
    and "1 \<le> m'" "m' \<le> 12" "1 \<le> d'" "d' \<le> days_in_month y' m'"
    and "ymd2ord y m d = ymd2ord y' m' d'"
  shows "y = y' \<and> m = m' \<and> d = d'"
proof -
  have y: "y = y'"
  proof (rule ccontr)
    assume "y \<noteq> y'"
    then consider "y < y'" | "y' < y" by linarith
    then show False
    proof cases
      case 1
      from ymd2ord_year_order [OF assms(1-8) this] assms(9) show False by simp
    next
      case 2
      from ymd2ord_year_order [OF assms(5-8) assms(1-4) this] assms(9) show False by simp
    qed
  qed
  have e: "days_before_month y m + d = days_before_month y m' + d'"
    using assms(9) unfolding y ymd2ord_def by simp
  have m: "m = m'"
  proof (rule ccontr)
    assume "m \<noteq> m'"
    then consider "m < m'" | "m' < m" by linarith
    then show False
    proof cases
      case 1
      from month_order [OF assms(1,2,5,6) this assms(4,7)] e show False by simp
    next
      case 2
      from month_order [OF assms(5,6,1,2) this, of d' y d] assms(8,3) e y show False by simp
    qed
  qed
  from e m y show ?thesis by simp
qed

lemma quotient_remainder_inj:
  fixes q r q' r' k :: int
  assumes "0 \<le> r" "r < k" "0 \<le> r'" "r' < k" "q * k + r = q' * k + r'"
  shows "q = q' \<and> r = r'"
proof -
  have "(q * k + r) div k = q"
    by (rule int_div_pos_eq [where r = r]) (use assms(1,2) in \<open>simp_all add: mult.commute\<close>)
  moreover have "(q' * k + r') div k = q'"
    by (rule int_div_pos_eq [where r = r']) (use assms(3,4) in \<open>simp_all add: mult.commute\<close>)
  ultimately have "q = q'" using assms(5) by simp
  with assms(5) show ?thesis by simp
qed

lemma clock_inj:
  fixes h mi s h' mi' s' :: int
  assumes "0 \<le> mi" "mi \<le> 59" "0 \<le> s" "s \<le> 59" "0 \<le> mi'" "mi' \<le> 59" "0 \<le> s'" "s' \<le> 59"
    and "h * 3600 + mi * 60 + s = h' * 3600 + mi' * 60 + s'"
  shows "h = h' \<and> mi = mi' \<and> s = s'"
proof -
  have "h * 3600 + (mi * 60 + s) = h' * 3600 + (mi' * 60 + s')"
    using assms(9) by simp
  moreover have "0 \<le> mi * 60 + s" "mi * 60 + s < 3600" "0 \<le> mi' * 60 + s'"
    "mi' * 60 + s' < 3600"
    using assms(1-8) by simp_all
  ultimately have a: "h = h' \<and> mi * 60 + s = mi' * 60 + s'"
    by (intro quotient_remainder_inj [where k = 3600]) simp_all
  then have "mi = mi' \<and> s = s'"
    using assms(3,4,7,8) by (intro quotient_remainder_inj [where k = 60]) simp_all
  with a show ?thesis by simp
qed

lemma wall_seconds_inj:
  assumes "valid_datetime a" "valid_datetime b" "wall_seconds a = wall_seconds b"
    and "microsecond a = microsecond b" "tzinfo a = tzinfo b"
  shows "a = b"
proof -
  let ?sa = "hour a * 3600 + minute a * 60 + second a"
  let ?sb = "hour b * 3600 + minute b * 60 + second b"
  have ra: "0 \<le> ?sa" "?sa < 86400" and rb: "0 \<le> ?sb" "?sb < 86400"
    using assms(1,2) by (simp_all add: valid_datetime_def)
  have "toordinal a * 86400 + ?sa = toordinal b * 86400 + ?sb"
    using assms(3) by (simp add: wall_seconds_def)
  with ra rb have "toordinal a = toordinal b \<and> ?sa = ?sb"
    by (intro quotient_remainder_inj [where k = 86400]) simp_all
  then have o: "toordinal a = toordinal b" and s: "?sa = ?sb" by simp_all
  from assms(1,2) o have d: "year a = year b \<and> month a = month b \<and> day a = day b"
    unfolding toordinal_def by (intro ymd2ord_inj) (simp_all add: valid_datetime_def)
  from assms(1,2) s have c: "hour a = hour b \<and> minute a = minute b \<and> second a = second b"
    by (intro clock_inj) (simp_all add: valid_datetime_def)
  from d c assms(4,5) show ?thesis by simp
qed

section \<open>Rendering\<close>

lemma isdigit_digit_char: "k < 10 \<Longrightarrow> isdigit (digit_char k)"
  unfolding isdigit_def digit_char_def by (rule nth_mem) simp

lemma str_nat_one: "n < 10 \<Longrightarrow> str_nat n = [digit_char n]"
  by (simp add: str_nat.simps [of n])

lemma str_nat_two:
  assumes "10 \<le> n" "n < 100"
  shows "str_nat n = [digit_char (n div 10), digit_char (n mod 10)]"
proof -
  have "n div 10 < 10" using assms by simp
  then show ?thesis using assms by (simp add: str_nat.simps [of n] str_nat_one)
qed

lemma str_nat_four:
  assumes "1000 \<le> n" "n < 10000"
  shows "str_nat n = [digit_char (n div 1000), digit_char (n div 100 mod 10),
                      digit_char (n div 10 mod 10), digit_char (n mod 10)]"
proof -
  have a: "10 \<le> n div 100" "n div 100 < 100" using assms by simp_all
  have b: "\<not> n div 10 < 10" "\<not> n < 10" using assms by simp_all
  have c: "n div 10 div 10 = n div 100" "n div 100 div 10 = n div 1000"
    by (simp_all add: div_mult2_eq [symmetric])
  show ?thesis
    unfolding str_nat.simps [of n] str_nat.simps [of "n div 10"] using a b
    by (simp add: c str_nat_two)
qed

lemma pad2_digits:
  assumes "0 \<le> i" "i \<le> 99"
  shows "pad2 i = [digit_char (nat i div 10), digit_char (nat i mod 10)]"
proof (cases "i < 10")
  case True
  with assms have "nat i < 10" by simp
  then have "str_nat (nat i) = [digit_char (nat i)]" "nat i div 10 = 0" "nat i mod 10 = nat i"
    by (simp_all add: str_nat_one)
  with True assms show ?thesis
    by (simp add: pad2_def str_int_def digit_char_def)
next
  case False
  with assms have "10 \<le> nat i" "nat i < 100" by simp_all
  then have "str_nat (nat i) = [digit_char (nat i div 10), digit_char (nat i mod 10)]"
    by (rule str_nat_two)
  with False assms show ?thesis by (simp add: pad2_def str_int_def)
qed

lemma pad2_shape:
  assumes "0 \<le> i" "i \<le> 99"
  obtains a b where "pad2 i = [a, b]" "isdigit a" "isdigit b"
proof -
  have "nat i div 10 < 10" "nat i mod 10 < 10" using assms by simp_all
  then have "isdigit (digit_char (nat i div 10))" "isdigit (digit_char (nat i mod 10))"
    by (simp_all add: isdigit_digit_char)
  with pad2_digits [OF assms] that show thesis by blast
qed

lemma year_shape:
  assumes "1000 \<le> i" "i \<le> 9999"
  obtains a b c d where "str_int i = [a, b, c, d]" "isdigit a" "isdigit b" "isdigit c" "isdigit d"
proof -
  have n: "1000 \<le> nat i" "nat i < 10000" using assms by simp_all
  then have "nat i div 1000 < 10" by simp
  then have "isdigit (digit_char (nat i div 1000))" "isdigit (digit_char (nat i div 100 mod 10))"
    "isdigit (digit_char (nat i div 10 mod 10))" "isdigit (digit_char (nat i mod 10))"
    by (simp_all add: isdigit_digit_char)
  moreover have "str_int i = str_nat (nat i)" using assms by (simp add: str_int_def)
  ultimately show thesis using str_nat_four [OF n] that by simp
qed

lemma strftime_DATETIME_FORMAT:
  "strftime dt DATETIME_FORMAT =
     str_int (year dt) @ ''-'' @ pad2 (month dt) @ ''-'' @ pad2 (day dt) @ ''T''
     @ pad2 (hour dt) @ '':'' @ pad2 (minute dt) @ '':'' @ pad2 (second dt) @ ''Z''"
  by (simp add: DATETIME_FORMAT_def directive_def)

lemma strftime_fixed_shape:
  assumes "valid_datetime dt" "1000 \<le> year dt"
  shows "has_shape FIXED_SHAPE (strftime dt DATETIME_FORMAT)"
proof -
  from assms have v: "year dt \<le> 9999" "0 \<le> month dt" "month dt \<le> 99" "0 \<le> day dt"
    "0 \<le> hour dt" "hour dt \<le> 99" "0 \<le> minute dt" "minute dt \<le> 99"
    "0 \<le> second dt" "second dt \<le> 99"
    by (simp_all add: valid_datetime_def)
  have "\<forall>k \<in> set [1..12]. DAYS_IN_MONTH ! nat k \<le> 31" by code_simp
  moreover from assms have "month dt \<in> set [1..12]" by (simp add: valid_datetime_def)
  ultimately have "DAYS_IN_MONTH ! nat (month dt) \<le> 31" by blast
  with assms have d: "day dt \<le> 99"
    by (simp add: valid_datetime_def days_in_month_def split: if_splits)
  obtain y1 y2 y3 y4 where y: "str_int (year dt) = [y1, y2, y3, y4]"
    "isdigit y1" "isdigit y2" "isdigit y3" "isdigit y4"
    using year_shape [OF assms(2) v(1)] by blast
  obtain m1 m2 where m: "pad2 (month dt) = [m1, m2]" "isdigit m1" "isdigit m2"
    using pad2_shape [OF v(2,3)] by blast
  obtain d1 d2 where dd: "pad2 (day dt) = [d1, d2]" "isdigit d1" "isdigit d2"
    using pad2_shape [OF v(4) d] by blast
  obtain h1 h2 where h: "pad2 (hour dt) = [h1, h2]" "isdigit h1" "isdigit h2"
    using pad2_shape [OF v(5,6)] by blast
  obtain i1 i2 where i: "pad2 (minute dt) = [i1, i2]" "isdigit i1" "isdigit i2"
    using pad2_shape [OF v(7,8)] by blast
  obtain s1 s2 where s: "pad2 (second dt) = [s1, s2]" "isdigit s1" "isdigit s2"
    using pad2_shape [OF v(9,10)] by blast
  show ?thesis
    unfolding strftime_DATETIME_FORMAT y(1) m(1) dd(1) h(1) i(1) s(1) FIXED_SHAPE_def
    using y m dd h i s by simp
qed


lemma has_shape_length: "has_shape p s \<Longrightarrow> length s = length p"
  by (induction p s rule: has_shape.induct) simp_all

lemma str_nat_short:
  assumes "n < 1000"
  shows "length (str_nat n) \<le> 3"
proof (cases "n < 10")
  case True
  then show ?thesis by (simp add: str_nat_one)
next
  case False
  show ?thesis
  proof (cases "n < 100")
    case True
    with False show ?thesis by (simp add: str_nat_two)
  next
    case h: False
    with assms have "10 \<le> n div 10" "n div 10 < 100" by simp_all
    then have "length (str_nat (n div 10)) = 2" by (simp add: str_nat_two)
    with False show ?thesis by (simp add: str_nat.simps [of n])
  qed
qed

lemma strftime_length:
  assumes "valid_datetime dt"
  shows "length (strftime dt DATETIME_FORMAT) = length (str_int (year dt)) + 16"
proof -
  from assms have v: "0 \<le> month dt" "month dt \<le> 99" "0 \<le> day dt"
    "0 \<le> hour dt" "hour dt \<le> 99" "0 \<le> minute dt" "minute dt \<le> 99"
    "0 \<le> second dt" "second dt \<le> 99"
    by (simp_all add: valid_datetime_def)
  have "\<forall>k \<in> set [1..12]. DAYS_IN_MONTH ! nat k \<le> 31" by code_simp
  moreover from assms have "month dt \<in> set [1..12]" by (simp add: valid_datetime_def)
  ultimately have "DAYS_IN_MONTH ! nat (month dt) \<le> 31" by blast
  with assms have d: "day dt \<le> 99"
    by (simp add: valid_datetime_def days_in_month_def split: if_splits)
  have "length (pad2 (month dt)) = 2" "length (pad2 (day dt)) = 2"
    "length (pad2 (hour dt)) = 2" "length (pad2 (minute dt)) = 2"
    "length (pad2 (second dt)) = 2"
    using v d by (simp_all add: pad2_digits)
  then show ?thesis by (simp add: strftime_DATETIME_FORMAT)
qed

lemma strftime_fixed_shape_iff:
  assumes "valid_datetime dt"
  shows "has_shape FIXED_SHAPE (strftime dt DATETIME_FORMAT) = (1000 \<le> year dt)"
proof (cases "1000 \<le> year dt")
  case True
  with assms show ?thesis by (simp add: strftime_fixed_shape)
next
  case False
  with assms have "nat (year dt) < 1000" "0 \<le> year dt"
    by (simp_all add: valid_datetime_def)
  then have "length (str_int (year dt)) \<le> 3"
    using str_nat_short [of "nat (year dt)"] by (simp add: str_int_def)
  then have "length (strftime dt DATETIME_FORMAT) \<noteq> length FIXED_SHAPE"
    by (simp add: strftime_length [OF assms] FIXED_SHAPE_def)
  with False show ?thesis using has_shape_length by blast
qed

section \<open>The handler, step by step\<close>

lemma err_bind_Inr_iff: "(err_bind m f = Inr y) = (\<exists>x. m = Inr x \<and> f x = Inr y)"
  by (cases m) (simp_all add: err_bind_def)

lemma environ_getitem_Inr_iff: "(environ_getitem env k = Inr v) = (env k = Some v)"
  by (simp add: environ_getitem_def split: option.splits)

lemma flag_Inr_iff:
  "(flag env k token = Inr s)
   = (\<exists>v b. env k = Some v \<and> strtobool v = Inr b \<and> s = (if b then token else ''''))"
  unfolding flag_def err_bind_Inr_iff environ_getitem_Inr_iff by auto

lemma minutes_of_Inr_iff:
  "(minutes_of env = Inr ms) = (\<exists>s. env ''MINUTES'' = Some s \<and> search_digits s = Some ms)"
  unfolding minutes_of_def err_bind_Inr_iff environ_getitem_Inr_iff
  by (auto split: option.splits)

lemma to_int_Inr_iff: "(to_int s = Inr i) = (py_int s = Some i)"
  by (simp add: to_int_def split: option.splits)

lemma prepare_job_InrE:
  assumes "prepare_job w env ev = Inr j"
  obtains t qe ms m qs jt jr jq ep dq cs v1 b1 v2 b2 v3 b3 v4 b4
  where "ev ''time'' = Some t" "isoparse w t = Inr qe"
    "minutes_of env = Inr ms" "to_int ms = Inr m"
    "datetime_add qe \<lparr>rd_days = 0, rd_minutes = - m\<rparr> = Inr qs"
    "env ''JOB_TYPE'' = Some jt" "env ''JOB_RELEASE'' = Some jr" "env ''JOB_QUEUE'' = Some jq"
    "env ''ENDPOINT'' = Some ep" "env ''DOWNLOAD_JOB_QUEUE'' = Some dq"
    "env ''CHUNK_SIZE'' = Some cs"
    "env ''SMOKE_RUN'' = Some v1" "strtobool v1 = Inr b1"
    "env ''DRY_RUN'' = Some v2" "strtobool v2 = Inr b2"
    "env ''NO_SCHEDULE_DOWNLOAD'' = Some v3" "strtobool v3 = Inr b3"
    "env ''USE_TEMPORAL'' = Some v4" "strtobool v4 = Inr b4"
    "job_name j = ''data-subscriber-query-timer-''
                    @ strftime (utcnow w) JOB_NAME_DATETIME_FORMAT @ ''_'' @ ms"
    "job_spec j = ''job-'' @ jt @ '':'' @ jr" "queue j = jq"
    "tags j = [''data-subscriber-query-timer'']"
    "job_params j =
       [(''start_datetime'', ''--start-date='' @ strftime qs DATETIME_FORMAT),
        (''end_datetime'', ''--end-date='' @ strftime qe DATETIME_FORMAT),
        (''endpoint'', ''--endpoint='' @ ep),
        (''download_job_release'', ''--release-version='' @ jr),
        (''download_job_queue'', ''--job-queue='' @ dq),
        (''chunk_size'', ''--chunk-size='' @ cs),
        (''smoke_run'', if b1 then ''--smoke-run'' else ''''),
        (''dry_run'', if b2 then ''--dry-run'' else ''''),
        (''no_schedule_download'', if b3 then ''--no-schedule-download'' else ''''),
        (''use_temporal'', if b4 then ''--use-temporal'' else ''''),
        (''temporal_start_datetime'',
           if get_temporal_start_datetime env qe \<noteq> ''''
           then ''--temporal-start-date='' @ get_temporal_start_datetime env qe else ''''),
        (''bounding_box'',
           case env ''BOUNDING_BOX'' of
             None \<Rightarrow> ''''
           | Some b \<Rightarrow> if b \<noteq> '''' then ''--bounds='' @ b else '''')]"
proof -
  from assms obtain t where t: "ev ''time'' = Some t"
    unfolding prepare_job_def err_bind_Inr_iff by (auto split: option.splits)
  from assms t show thesis
    unfolding prepare_job_def err_bind_Inr_iff Let_def flag_Inr_iff environ_getitem_Inr_iff
    apply (elim exE conjE)
    apply clarsimp
    apply (rule that; (assumption | simp))
    done
qed

lemma prepare_job_fails:
  assumes "\<And>j. prepare_job w env ev \<noteq> Inr j"
  shows "\<exists>e. prepare_job w env ev = Inl e"
  using assms by (cases "prepare_job w env ev") auto

lemma invocation_fails_load:
  assumes "load_module env = Inl e"
  shows "\<exists>e. invocation w env ev = (Inl e, [])"
  using assms by (simp add: invocation_def)

lemma invocation_fails_prepare:
  assumes "\<And>j. prepare_job w env ev \<noteq> Inr j"
  shows "\<exists>e. invocation w env ev = (Inl e, [])"
proof (cases "load_module env")
  case (Inl a)
  then show ?thesis by (rule invocation_fails_load)
next
  case (Inr u)
  from assms obtain e' where "prepare_job w env ev = Inl e'"
    using prepare_job_fails by blast
  with Inr show ?thesis by (simp add: invocation_def lambda_handler_def)
qed

lemma prepare_job_window:
  assumes "prepare_job w env ev = Inr j"
  obtains t qe ms m qs
  where "ev ''time'' = Some t" "isoparse w t = Inr qe"
    "minutes_of env = Inr ms" "to_int ms = Inr m"
    "datetime_add qe \<lparr>rd_days = 0, rd_minutes = - m\<rparr> = Inr qs"
    "map_of (job_params j) ''start_datetime''
       = Some (''--start-date='' @ strftime qs DATETIME_FORMAT)"
    "map_of (job_params j) ''end_datetime''
       = Some (''--end-date='' @ strftime qe DATETIME_FORMAT)"
    "map_of (job_params j) ''temporal_start_datetime''
       = Some (if get_temporal_start_datetime env qe \<noteq> ''''
               then ''--temporal-start-date='' @ get_temporal_start_datetime env qe else '''')"
proof (rule prepare_job_InrE [OF assms])
  fix t qe ms m qs jt jr jq ep dq cs v1 b1 v2 b2 v3 b3 v4 b4
  assume f: "ev ''time'' = Some t" "isoparse w t = Inr qe"
    "minutes_of env = Inr ms" "to_int ms = Inr m"
    "datetime_add qe \<lparr>rd_days = 0, rd_minutes = - m\<rparr> = Inr qs"
  assume "job_params j =
       [(''start_datetime'', ''--start-date='' @ strftime qs DATETIME_FORMAT),
        (''end_datetime'', ''--end-date='' @ strftime qe DATETIME_FORMAT),
        (''endpoint'', ''--endpoint='' @ ep),
        (''download_job_release'', ''--release-version='' @ jr),
        (''download_job_queue'', ''--job-queue='' @ dq),
        (''chunk_size'', ''--chunk-size='' @ cs),
        (''smoke_run'', if b1 then ''--smoke-run'' else ''''),
        (''dry_run'', if b2 then ''--dry-run'' else ''''),
        (''no_schedule_download'', if b3 then ''--no-schedule-download'' else ''''),
        (''use_temporal'', if b4 then ''--use-temporal'' else ''''),
        (''temporal_start_datetime'',
           if get_temporal_start_datetime env qe \<noteq> ''''
           then ''--temporal-start-date='' @ get_temporal_start_datetime env qe else ''''),
        (''bounding_box'',
           case env ''BOUNDING_BOX'' of
             None \<Rightarrow> ''''
           | Some b \<Rightarrow> if b \<noteq> '''' then ''--bounds='' @ b else '''')]"
  then have "map_of (job_params j) ''start_datetime''
       = Some (''--start-date='' @ strftime qs DATETIME_FORMAT)"
    "map_of (job_params j) ''end_datetime''
       = Some (''--end-date='' @ strftime qe DATETIME_FORMAT)"
    "map_of (job_params j) ''temporal_start_datetime''
       = Some (if get_temporal_start_datetime env qe \<noteq> ''''
               then ''--temporal-start-date='' @ get_temporal_start_datetime env qe else '''')"
    by simp_all
  with f show thesis by (rule that)
qed

lemma prepare_job_required:
  assumes "prepare_job w env ev = Inr j" "k \<in> set REQUIRED" "k \<noteq> ''MOZART_URL''"
  shows "env k \<noteq> None"
proof (rule prepare_job_InrE [OF assms(1)])
  fix ms jt jr jq ep dq cs v1 v2 v3 v4
  assume "minutes_of env = Inr ms"
  then have "env ''MINUTES'' \<noteq> None" by (auto simp: minutes_of_Inr_iff)
  moreover assume "env ''JOB_TYPE'' = Some jt" "env ''JOB_RELEASE'' = Some jr"
    "env ''JOB_QUEUE'' = Some jq" "env ''ENDPOINT'' = Some ep"
    "env ''DOWNLOAD_JOB_QUEUE'' = Some dq" "env ''CHUNK_SIZE'' = Some cs"
    "env ''SMOKE_RUN'' = Some v1" "env ''DRY_RUN'' = Some v2"
    "env ''NO_SCHEDULE_DOWNLOAD'' = Some v3" "env ''USE_TEMPORAL'' = Some v4"
  ultimately have "\<forall>k \<in> set REQUIRED. k \<noteq> ''MOZART_URL'' \<longrightarrow> env k \<noteq> None"
    unfolding REQUIRED_def by simp
  with assms(2,3) show ?thesis by simp
qed

lemma prepare_job_flag:
  assumes "prepare_job w env ev = Inr j" "(k, key, token) \<in> set FLAGS"
  shows "\<exists>v b. env k = Some v \<and> strtobool v = Inr b
               \<and> map_of (job_params j) key = Some (if b then token else '''')"
proof (rule prepare_job_InrE [OF assms(1)])
  fix qe qs jr ep dq cs v1 b1 v2 b2 v3 b3 v4 b4
  assume v: "env ''SMOKE_RUN'' = Some v1" "strtobool v1 = Inr b1"
    "env ''DRY_RUN'' = Some v2" "strtobool v2 = Inr b2"
    "env ''NO_SCHEDULE_DOWNLOAD'' = Some v3" "strtobool v3 = Inr b3"
    "env ''USE_TEMPORAL'' = Some v4" "strtobool v4 = Inr b4"
  assume "job_params j =
       [(''start_datetime'', ''--start-date='' @ strftime qs DATETIME_FORMAT),
        (''end_datetime'', ''--end-date='' @ strftime qe DATETIME_FORMAT),
        (''endpoint'', ''--endpoint='' @ ep),
        (''download_job_release'', ''--release-version='' @ jr),
        (''download_job_queue'', ''--job-queue='' @ dq),
        (''chunk_size'', ''--chunk-size='' @ cs),
        (''smoke_run'', if b1 then ''--smoke-run'' else ''''),
        (''dry_run'', if b2 then ''--dry-run'' else ''''),
        (''no_schedule_download'', if b3 then ''--no-schedule-download'' else ''''),
        (''use_temporal'', if b4 then ''--use-temporal'' else ''''),
        (''temporal_start_datetime'',
           if get_temporal_start_datetime env qe \<noteq> ''''
           then ''--temporal-start-date='' @ get_temporal_start_datetime env qe else ''''),
        (''bounding_box'',
           case env ''BOUNDING_BOX'' of
             None \<Rightarrow> ''''
           | Some b \<Rightarrow> if b \<noteq> '''' then ''--bounds='' @ b else '''')]"
  then have p: "map_of (job_params j) ''smoke_run'' = Some (if b1 then ''--smoke-run'' else '''')"
    "map_of (job_params j) ''dry_run'' = Some (if b2 then ''--dry-run'' else '''')"
    "map_of (job_params j) ''no_schedule_download''
       = Some (if b3 then ''--no-schedule-download'' else '''')"
    "map_of (job_params j) ''use_temporal'' = Some (if b4 then ''--use-temporal'' else '''')"
    by simp_all
  with v have "\<forall>(k, key, token) \<in> set FLAGS.
          \<exists>v b. env k = Some v \<and> strtobool v = Inr b
                \<and> map_of (job_params j) key = Some (if b then token else [])"
    unfolding FLAGS_def by simp
  with assms(2) show ?thesis by fast
qed

lemma submit_job_snd:
  "snd (submit_job w u name spec params q ts prio) = [job_request u name spec params q ts prio]"
  by (simp add: submit_job_def Let_def)



section \<open>Digits\<close>

lemma isdigit_not_isspace: "isdigit c \<Longrightarrow> \<not> isspace c"
  by (auto simp: isdigit_def isspace_def)

lemma isdigit_not_sign: "isdigit c \<Longrightarrow> c \<noteq> CHR ''-'' \<and> c \<noteq> CHR ''+'' \<and> c \<noteq> CHR ''_''"
  by (auto simp: isdigit_def)

lemma digits_ok_all: "ds \<noteq> [] \<Longrightarrow> \<forall>c \<in> set ds. isdigit c \<Longrightarrow> digits_ok ds"
proof (induction ds rule: digits_ok.induct)
  case (3 c d cs)
  then have "isdigit d" by simp
  then have "d \<noteq> CHR ''_''" using isdigit_not_sign by blast
  with 3 show ?case by simp
qed simp_all

lemma strip_digits:
  assumes "ds \<noteq> []" "\<forall>c \<in> set ds. isdigit c"
  shows "strip ds = ds"
proof -
  from assms obtain c r where ds: "ds = c # r" by (cases ds) auto
  with assms have "\<not> isspace c" using isdigit_not_isspace by simp
  then have a: "dropWhile isspace ds = ds" using ds by simp
  from assms have "rev ds \<noteq> []" "\<forall>c \<in> set (rev ds). isdigit c" by simp_all
  then obtain c' r' where rds: "rev ds = c' # r'" "isdigit c'" by (cases "rev ds") auto
  then have "dropWhile isspace (rev ds) = rev ds" using isdigit_not_isspace by simp
  with a show ?thesis by (simp add: strip_def)
qed

lemma py_int_digits:
  assumes "ds \<noteq> []" "\<forall>c \<in> set ds. isdigit c"
  shows "py_int ds = (if length ds \<le> MAX_STR_DIGITS then Some (digits_value ds) else None)"
proof -
  from assms obtain c r where ds: "ds = c # r" "isdigit c" by (cases ds) auto
  then have "c \<noteq> CHR ''-''" "c \<noteq> CHR ''+''" using isdigit_not_sign by blast+
  moreover from assms(2) have "filter isdigit ds = ds" by simp
  ultimately show ?thesis
    using ds digits_ok_all [OF assms] strip_digits [OF assms]
    by (simp add: py_int_def)
qed

lemma py_int_empty: "py_int '''' = None"
  by (simp add: py_int_def strip_def)

lemma search_digits_run:
  assumes "\<forall>c \<in> set pre. \<not> isdigit c" "ds \<noteq> []" "\<forall>c \<in> set ds. isdigit c"
    "takeWhile isdigit suf = []"
  shows "search_digits (pre @ ds @ suf) = Some ds"
proof -
  from assms obtain c r where ds: "ds = c # r" "isdigit c" by (cases ds) auto
  have "dropWhile (\<lambda>c. \<not> isdigit c) (pre @ ds @ suf) = dropWhile (\<lambda>c. \<not> isdigit c) (ds @ suf)"
    using assms(1) by simp
  also have "\<dots> = ds @ suf" using ds by simp
  finally have d: "dropWhile (\<lambda>c. \<not> isdigit c) (pre @ ds @ suf) = ds @ suf" .
  have "takeWhile isdigit (ds @ suf) = ds @ takeWhile isdigit suf"
    using assms(3) by simp
  with assms(2,4) d show ?thesis by (simp add: search_digits_def)
qed

lemma search_digits_none:
  assumes "\<forall>c \<in> set s. \<not> isdigit c"
  shows "search_digits s = None"
proof -
  have "dropWhile (\<lambda>c. \<not> isdigit c) s = []" using assms by simp
  then show ?thesis by (simp add: search_digits_def)
qed

lemma search_digits_SomeD:
  assumes "search_digits s = Some ds"
  shows "ds \<noteq> [] \<and> (\<forall>c \<in> set ds. isdigit c)"
proof -
  let ?t = "dropWhile (\<lambda>c. \<not> isdigit c) s"
  from assms have t: "?t \<noteq> []" "ds = takeWhile isdigit ?t"
    by (auto simp: search_digits_def Let_def split: if_splits)
  then have "isdigit (hd ?t)" using hd_dropWhile [of "\<lambda>c. \<not> isdigit c" s] by simp
  with t have "ds \<noteq> []" by (cases ?t) auto
  moreover have "\<forall>c \<in> set ds. isdigit c"
    unfolding t(2) using set_takeWhileD by fastforce
  ultimately show ?thesis by simp
qed

section \<open>Reading back what \<^verbatim>\<open>json.dumps\<close> has written\<close>

text \<open>
  The readers terminate: every character read, every string and every member takes
  at least one character off the text.
\<close>

lemma json_char_shorter: "json_char s = Some (d, r) \<Longrightarrow> length r < length s"
  by (auto simp: json_char_def split: list.splits if_splits option.splits)

termination json_chars
  by (relation "measure length") (auto dest: json_char_shorter)

lemma json_ws_length: "length (json_ws s) \<le> length s"
  by (simp add: json_ws_def length_dropWhile_le)

lemma json_chars_shorter: "json_chars s = Some (x, r) \<Longrightarrow> length r < length s"
proof (induction s arbitrary: x r rule: json_chars.induct)
  case 1
  then show ?case by simp
next
  case (2 c t)
  show ?case
  proof (cases "c = CHR 0x22")
    case True
    with 2(2) show ?thesis by simp
  next
    case False
    with 2(2) obtain d r' ds where a: "json_char (c # t) = Some (d, r')"
      "json_chars r' = Some (ds, r)"
      by (auto split: option.splits)
    from 2(1) [OF False a(1) refl a(2)] json_char_shorter [OF a(1)]
    show ?thesis by simp
  qed
qed

lemma json_string_shorter: "json_string s = Some (x, r) \<Longrightarrow> length r < length s"
proof -
  assume a: "json_string s = Some (x, r)"
  then obtain t where t: "json_ws s = CHR 0x22 # t" "json_chars t = Some (x, r)"
    by (auto simp: json_string_def split: list.splits if_splits)
  from json_chars_shorter [OF t(2)] json_ws_length [of s] t(1) show ?thesis by simp
qed

lemma json_member_shorter: "json_member s = Some (x, r) \<Longrightarrow> length r < length s"
proof -
  assume a: "json_member s = Some (x, r)"
  then obtain k r1 c r2 v where m: "json_string s = Some (k, r1)" "json_ws r1 = c # r2"
    "json_string r2 = Some (v, r)"
    by (auto simp: json_member_def split: option.splits list.splits if_splits)
  from json_string_shorter [OF m(1)] json_string_shorter [OF m(3)] json_ws_length [of r1] m(2)
  show ?thesis by simp
qed

lemma json_items_step:
  assumes "json_string s = Some (x, y)" "json_ws y = c # r"
  shows "length r < length s"
  using json_string_shorter [OF assms(1)] json_ws_length [of y] assms(2) by simp

lemma json_members_step:
  assumes "json_member s = Some (x, y)" "json_ws y = c # r"
  shows "length r < length s"
  using json_member_shorter [OF assms(1)] json_ws_length [of y] assms(2) by simp

termination json_items
  by (relation "measure length") (auto dest: json_items_step)

termination json_members
  by (relation "measure length") (auto dest: json_members_step)

declare json_items.simps [simp del]

declare json_members.simps [simp del]

text \<open>
  Reading gives back what was written: each character from its escape, each string
  from its quoted text, and the list and the dictionary from their encodings.
\<close>

lemma hex_val_hex_char: "k < 16 \<Longrightarrow> hex_val (hex_char k) = Some k"
proof -
  assume "k < 16"
  then have "k \<in> set [0..<16]" by simp
  moreover have "\<forall>k \<in> set [0..<16]. hex_val (hex_char k) = Some k" by code_simp
  ultimately show ?thesis by blast
qed

lemma hex_val_zero: "hex_val CHR ''0'' = Some 0"
  by code_simp

lemma of_char_eq_numeral: "of_char c = (of_char d :: nat) \<Longrightarrow> c = d"
  by (rule of_char_eqI)

lemma json_escape_head:
  "\<exists>e es. json_escape c = e # es \<and> e \<noteq> CHR 0x22"
proof (cases "32 \<le> (of_char c :: nat) \<and> (of_char c :: nat) \<le> 126
              \<and> (of_char c :: nat) \<noteq> 34 \<and> (of_char c :: nat) \<noteq> 92")
  case True
  then have "c \<noteq> CHR 0x22" by auto
  with True show ?thesis by (simp add: json_escape_def Let_def)
next
  case False
  then show ?thesis by (auto simp: json_escape_def Let_def)
qed

lemma json_char_escape: "json_char (json_escape c @ rest) = Some (c, rest)"
proof -
  let ?n = "of_char c :: nat"
  consider (quote) "?n = 34" | (backslash) "?n = 92" | (nl) "?n = 10" | (cr) "?n = 13"
    | (tab) "?n = 9" | (bs) "?n = 8" | (ff) "?n = 12"
    | (plain) "32 \<le> ?n" "?n \<le> 126" "?n \<noteq> 34" "?n \<noteq> 92"
    | (other) "\<not> (32 \<le> ?n \<and> ?n \<le> 126)" "?n \<noteq> 10" "?n \<noteq> 13" "?n \<noteq> 9" "?n \<noteq> 8"
        "?n \<noteq> 12"
    by linarith
  then show ?thesis
  proof cases
    case quote
    then have "c = CHR 0x22" by (intro of_char_eq_numeral) simp
    then show ?thesis by (simp add: json_escape_def json_char_def)
  next
    case backslash
    then have "c = CHR 0x5C" by (intro of_char_eq_numeral) simp
    then show ?thesis by (simp add: json_escape_def json_char_def)
  next
    case nl
    then have "c = CHR 0x0A" by (intro of_char_eq_numeral) simp
    then show ?thesis by (simp add: json_escape_def json_char_def)
  next
    case cr
    then have "c = CHR 0x0D" by (intro of_char_eq_numeral) simp
    then show ?thesis by (simp add: json_escape_def json_char_def)
  next
    case tab
    then have "c = CHR 0x09" by (intro of_char_eq_numeral) simp
    then show ?thesis by (simp add: json_escape_def json_char_def)
  next
    case bs
    then have "c = CHR 0x08" by (intro of_char_eq_numeral) simp
    then show ?thesis by (simp add: json_escape_def json_char_def)
  next
    case ff
    then have "c = CHR 0x0C" by (intro of_char_eq_numeral) simp
    then show ?thesis by (simp add: json_escape_def json_char_def)
  next
    case plain
    then have "c \<noteq> CHR 0x22" "c \<noteq> CHR 0x5C" by auto
    with plain show ?thesis by (simp add: json_escape_def json_char_def Let_def)
  next
    case other
    have lt: "?n < 256" by (rule nat_of_char_less_256)
    then have "?n div 16 < 16" by (intro less_mult_imp_div_less) simp
    then have d: "?n div 16 < 16" "?n mod 16 < 16" by simp_all
    from other have e: "json_escape c
        = [CHR 0x5C, CHR ''u'', CHR ''0'', CHR ''0'', hex_char (?n div 16), hex_char (?n mod 16)]"
      by (auto simp: json_escape_def Let_def)
    have "char_of (16 * (?n div 16) + ?n mod 16) = c" by simp
    then show ?thesis
      unfolding e
      by (simp add: json_char_def hex_val_zero hex_val_hex_char [OF d(1)]
            hex_val_hex_char [OF d(2)])
  qed
qed

lemma json_chars_escape:
  "json_chars (concat (map json_escape s) @ CHR 0x22 # rest) = Some (s, rest)"
proof (induction s)
  case Nil
  show ?case by simp
next
  case (Cons c s)
  obtain e es where e: "json_escape c = e # es" "e \<noteq> CHR 0x22"
    using json_escape_head by blast
  let ?t = "concat (map json_escape s) @ CHR 0x22 # rest"
  have "json_char (e # es @ ?t) = Some (c, ?t)"
    using json_char_escape [of c ?t] e(1) by simp
  with e(2) Cons show ?case by (simp add: e(1))
qed

lemma json_string_dumps: "json_string (json_dumps_str s @ rest) = Some (s, rest)"
  using json_chars_escape [of s rest]
  by (simp add: json_string_def json_ws_def json_dumps_str_def)

lemma json_string_space: "json_string (CHR 0x20 # s) = json_string s"
  by (simp add: json_string_def json_ws_def)

lemma json_member_dumps:
  "json_member (json_dumps_str k @ '': '' @ json_dumps_str v @ rest) = Some ((k, v), rest)"
  by (simp add: json_member_def json_string_dumps json_ws_def json_string_space)

lemma json_items_space: "json_items (CHR 0x20 # t) = json_items t"
  by (simp add: json_items.simps [of "CHR 0x20 # t"] json_items.simps [of t] json_string_space)

lemma json_members_space: "json_members (CHR 0x20 # t) = json_members t"
  by (simp add: json_members.simps [of "CHR 0x20 # t"] json_members.simps [of t]
        json_member_def json_string_space)

lemma json_items_dumps:
  "json_items (join '', '' (map json_dumps_str (x # xs)) @ CHR '']'' # rest)
   = Some (x # xs, rest)"
proof (induction xs arbitrary: x)
  case Nil
  show ?case
    by (subst json_items.simps) (simp add: json_string_dumps json_ws_def)
next
  case (Cons y ys)
  define t where "t = join '', '' (map json_dumps_str (y # ys)) @ CHR '']'' # rest"
  have ih: "json_items t = Some (y # ys, rest)"
    unfolding t_def by (rule Cons.IH)
  have "json_items (json_dumps_str x @ CHR '','' # CHR 0x20 # t) = Some (x # y # ys, rest)"
    by (subst json_items.simps) (simp add: json_string_dumps json_ws_def json_items_space ih)
  then show ?case by (simp add: t_def)
qed

lemma json_members_dumps:
  "json_members (join '', '' (map (\<lambda>(k, v). json_dumps_str k @ '': '' @ json_dumps_str v)
                                (x # xs)) @ CHR ''}'' # rest)
   = Some (x # xs, rest)"
proof (induction xs arbitrary: x)
  case Nil
  obtain k v where x: "x = (k, v)" by (cases x)
  have "json_members (json_dumps_str k @ '': '' @ json_dumps_str v @ CHR ''}'' # rest)
        = Some ([(k, v)], rest)"
    by (subst json_members.simps) (simp only: json_member_dumps, simp add: json_ws_def)
  then show ?case by (simp add: x)
next
  case (Cons y ys)
  obtain k v where x: "x = (k, v)" by (cases x)
  define t where "t = join '', '' (map (\<lambda>(k, v). json_dumps_str k @ '': '' @ json_dumps_str v)
                                     (y # ys)) @ CHR ''}'' # rest"
  have ih: "json_members t = Some (y # ys, rest)"
    unfolding t_def by (rule Cons.IH)
  have "json_members (json_dumps_str k @ '': '' @ json_dumps_str v @ CHR '','' # CHR 0x20 # t)
        = Some ((k, v) # y # ys, rest)"
    by (subst json_members.simps)
       (simp only: json_member_dumps, simp add: json_ws_def json_members_space ih)
  then show ?case by (simp add: t_def x)
qed

lemma json_dumps_str_head: "\<exists>r. json_dumps_str s = CHR 0x22 # r"
  by (simp add: json_dumps_str_def)

lemma json_loads_list_dumps: "json_loads_list (json_dumps_list ts) = Some ts"
proof (cases ts)
  case Nil
  then show ?thesis by (simp add: json_loads_list_def json_dumps_list_def json_ws_def)
next
  case (Cons x xs)
  define t where "t = join '', '' (map json_dumps_str (x # xs)) @ '']''"
  have i: "json_items t = Some (x # xs, [])"
    unfolding t_def using json_items_dumps [of x xs "[]"] by simp
  have "\<exists>r. t = CHR 0x22 # r"
  proof (cases xs)
    case Nil
    then show ?thesis using json_dumps_str_head [of x] by (auto simp: t_def)
  next
    case (Cons y ys)
    then show ?thesis using json_dumps_str_head [of x] by (auto simp: t_def)
  qed
  then obtain r where r: "t = CHR 0x22 # r" ..
  have "json_loads_list (CHR ''['' # t) = Some (x # xs)"
    unfolding json_loads_list_def
    using i by (simp add: json_ws_def r)
  then show ?thesis by (simp add: json_dumps_list_def t_def Cons)
qed

lemma json_loads_dict_dumps: "json_loads_dict (json_dumps_dict kvs) = Some kvs"
proof (cases kvs)
  case Nil
  then show ?thesis by (simp add: json_loads_dict_def json_dumps_dict_def json_ws_def)
next
  case (Cons x xs)
  define t where "t = join '', '' (map (\<lambda>(k, v). json_dumps_str k @ '': '' @ json_dumps_str v)
                                     (x # xs)) @ ''}''"
  have i: "json_members t = Some (x # xs, [])"
    unfolding t_def using json_members_dumps [of x xs "[]"] by simp
  obtain k v where x: "x = (k, v)" by (cases x)
  have "\<exists>r. t = CHR 0x22 # r"
  proof (cases xs)
    case Nil
    then show ?thesis using json_dumps_str_head [of k] by (auto simp: t_def x)
  next
    case (Cons y ys)
    then show ?thesis using json_dumps_str_head [of k] by (auto simp: t_def x)
  qed
  then obtain r where r: "t = CHR 0x22 # r" ..
  have "json_loads_dict (CHR ''{'' # t) = Some (x # xs)"
    unfolding json_loads_dict_def
    using i by (simp add: json_ws_def r)
  then show ?thesis by (simp add: json_dumps_dict_def t_def Cons)
qed

section \<open>The concrete invocations, evaluated\<close>

lemma prepare_job_example:
  "prepare_job example_world example_environ example_event = Inr example_job"
  by code_simp

lemma isoparse_example: "isoparse example_world ''2024-01-01T00:10:00Z'' = Inr example_end"
  by code_simp

lemma valid_example_end: "valid_datetime example_end"
  by code_simp


lemma minutes_of_example: "minutes_of example_environ = Inr ''5'' \<and> to_int ''5'' = Inr 5"
  by code_simp

section \<open>When the handler gets as far as its job parameters\<close>

text \<open>
  The statements below about the job parameters assume that the handler has prepared
  its job. It does so exactly under these conditions: the event has a \<open>time\<close> that the
  parser accepts, \<^verbatim>\<open>MINUTES\<close> holds a digit, in a run of at most 4300, the start of the
  window is within the range of \<^verbatim>\<open>datetime\<close>, the six settings are present, and the
  four flags are truth values.
\<close>

lemma prepare_job_total:
  assumes "ev ''time'' = Some t" "isoparse w t = Inr qe"
    and "env ''MINUTES'' = Some s" "search_digits s = Some ms"
    and "datetime_add qe \<lparr>rd_days = 0, rd_minutes = - digits_value ms\<rparr> = Inr qs"
    and "env ''JOB_TYPE'' = Some jt" "env ''JOB_RELEASE'' = Some jr" "env ''JOB_QUEUE'' = Some jq"
    and "env ''ENDPOINT'' = Some ep" "env ''DOWNLOAD_JOB_QUEUE'' = Some dq"
    and "env ''CHUNK_SIZE'' = Some cs"
    and "env ''SMOKE_RUN'' = Some v1" "strtobool v1 = Inr b1"
    and "env ''DRY_RUN'' = Some v2" "strtobool v2 = Inr b2"
    and "env ''NO_SCHEDULE_DOWNLOAD'' = Some v3" "strtobool v3 = Inr b3"
    and "env ''USE_TEMPORAL'' = Some v4" "strtobool v4 = Inr b4"
    and "length ms \<le> MAX_STR_DIGITS"
  shows "\<exists>j. prepare_job w env ev = Inr j"
proof -
  from search_digits_SomeD [OF assms(4)]
  have "py_int ms = (if length ms \<le> MAX_STR_DIGITS then Some (digits_value ms) else None)"
    by (intro py_int_digits) simp_all
  with assms(20) have i: "to_int ms = Inr (digits_value ms)" by (simp add: to_int_Inr_iff)
  have m: "minutes_of env = Inr ms"
    using assms(3,4) by (simp add: minutes_of_Inr_iff)
  have f: "flag env ''SMOKE_RUN'' ''--smoke-run'' = Inr (if b1 then ''--smoke-run'' else '''')"
    "flag env ''DRY_RUN'' ''--dry-run'' = Inr (if b2 then ''--dry-run'' else '''')"
    "flag env ''NO_SCHEDULE_DOWNLOAD'' ''--no-schedule-download''
       = Inr (if b3 then ''--no-schedule-download'' else '''')"
    "flag env ''USE_TEMPORAL'' ''--use-temporal'' = Inr (if b4 then ''--use-temporal'' else '''')"
    using assms(12-19) by (simp_all add: flag_Inr_iff)
  have g: "environ_getitem env ''JOB_TYPE'' = Inr jt" "environ_getitem env ''JOB_RELEASE'' = Inr jr"
    "environ_getitem env ''JOB_QUEUE'' = Inr jq" "environ_getitem env ''ENDPOINT'' = Inr ep"
    "environ_getitem env ''DOWNLOAD_JOB_QUEUE'' = Inr dq"
    "environ_getitem env ''CHUNK_SIZE'' = Inr cs"
    using assms(6-11) by (simp_all add: environ_getitem_Inr_iff)
  show ?thesis
    unfolding prepare_job_def Let_def
    by (simp add: err_bind_def assms(1,2,5) m i f g)
qed

lemma strtobool_cases: "strtobool v = Inl ValueError \<or> (\<exists>b. strtobool v = Inr b)"
  by (auto simp: strtobool_def Let_def)

lemma configured_flag:
  assumes "case env k of None \<Rightarrow> False | Some v \<Rightarrow> strtobool v \<noteq> Inl ValueError"
  shows "\<exists>v b. env k = Some v \<and> strtobool v = Inr b"
proof -
  from assms obtain v where v: "env k = Some v" "strtobool v \<noteq> Inl ValueError"
    by (cases "env k") simp_all
  with strtobool_cases [of v] show ?thesis by simp
qed

lemma prepare_job_configured:
  assumes "ev ''time'' = Some t" "isoparse w t = Inr qe"
    and "env ''MINUTES'' = Some s" "search_digits s = Some ms"
    and "length ms \<le> MAX_STR_DIGITS"
    and "datetime_add qe \<lparr>rd_days = 0, rd_minutes = - digits_value ms\<rparr> = Inr qs"
    and "configured env"
  shows "\<exists>j. prepare_job w env ev = Inr j
            \<and> map_of (job_params j) ''start_datetime''
               = Some (''--start-date='' @ strftime qs DATETIME_FORMAT)"
proof -
  from assms(7) have "env ''JOB_TYPE'' \<noteq> None" "env ''JOB_RELEASE'' \<noteq> None"
    "env ''JOB_QUEUE'' \<noteq> None" "env ''ENDPOINT'' \<noteq> None" "env ''DOWNLOAD_JOB_QUEUE'' \<noteq> None"
    "env ''CHUNK_SIZE'' \<noteq> None"
    unfolding configured_def SETTINGS_def by simp_all
  then obtain jt jr jq ep dq cs where c: "env ''JOB_TYPE'' = Some jt"
    "env ''JOB_RELEASE'' = Some jr" "env ''JOB_QUEUE'' = Some jq" "env ''ENDPOINT'' = Some ep"
    "env ''DOWNLOAD_JOB_QUEUE'' = Some dq" "env ''CHUNK_SIZE'' = Some cs"
    by auto
  from assms(7)
  have "case env ''SMOKE_RUN'' of None \<Rightarrow> False | Some v \<Rightarrow> strtobool v \<noteq> Inl ValueError"
    "case env ''DRY_RUN'' of None \<Rightarrow> False | Some v \<Rightarrow> strtobool v \<noteq> Inl ValueError"
    "case env ''NO_SCHEDULE_DOWNLOAD'' of None \<Rightarrow> False
     | Some v \<Rightarrow> strtobool v \<noteq> Inl ValueError"
    "case env ''USE_TEMPORAL'' of None \<Rightarrow> False | Some v \<Rightarrow> strtobool v \<noteq> Inl ValueError"
    unfolding configured_def FLAGS_def by simp_all
  from this [THEN configured_flag [where env = env]]
  obtain v1 b1 v2 b2 v3 b3 v4 b4 where f: "env ''SMOKE_RUN'' = Some v1" "strtobool v1 = Inr b1"
    "env ''DRY_RUN'' = Some v2" "strtobool v2 = Inr b2"
    "env ''NO_SCHEDULE_DOWNLOAD'' = Some v3" "strtobool v3 = Inr b3"
    "env ''USE_TEMPORAL'' = Some v4" "strtobool v4 = Inr b4"
    by (elim exE conjE)
  from prepare_job_total [where ev = ev and env = env and w = w, OF assms(1-4,6) c f assms(5)]
  obtain j where j: "prepare_job w env ev = Inr j" ..
  from search_digits_SomeD [OF assms(4)]
  have "py_int ms = (if length ms \<le> MAX_STR_DIGITS then Some (digits_value ms) else None)"
    by (intro py_int_digits) simp_all
  with assms(5) have i: "to_int ms = Inr (digits_value ms)" by (simp add: to_int_Inr_iff)
  have m: "minutes_of env = Inr ms"
    using assms(3,4) by (simp add: minutes_of_Inr_iff)
  from j have "map_of (job_params j) ''start_datetime''
               = Some (''--start-date='' @ strftime qs DATETIME_FORMAT)"
  proof (rule prepare_job_window)
    fix t' qe' ms' m' qs'
    assume a: "ev ''time'' = Some t'" "isoparse w t' = Inr qe'" "minutes_of env = Inr ms'"
      "to_int ms' = Inr m'" "datetime_add qe' \<lparr>rd_days = 0, rd_minutes = - m'\<rparr> = Inr qs'"
      and p: "map_of (job_params j) ''start_datetime''
                = Some (''--start-date='' @ strftime qs' DATETIME_FORMAT)"
    from a(1) assms(1) have "t' = t" by simp
    with a(2) assms(2) have "qe' = qe" by simp
    moreover from a(3) m have "ms' = ms" by simp
    with a(4) i have "m' = digits_value ms" by simp
    ultimately have "qs' = qs" using a(5) assms(6) by simp
    with p show ?thesis by simp
  qed
  with j show ?thesis by (intro exI conjI)
qed

lemma get_temporal_start_absent:
  assumes "env ''TEMPORAL_START_DATETIME_MARGIN_DAYS'' = None"
    and "env ''TEMPORAL_START_DATETIME'' = None"
  shows "get_temporal_start_datetime env qe = ''''"
  using assms
  by (simp add: get_temporal_start_datetime_def temporal_start_from_margin_def Let_def
        environ_get_def py_int_empty)

lemma prepare_job_bare:
  "prepare_job example_world bare_environ example_event = Inr bare_job"
  by code_simp

section \<open>The claims\<close>

text \<open>
  C10. Whenever the handler gets as far as its job parameters, the mapping has the
  same twelve keys in the same order, \<open>PARAM_KEYS\<close>, whatever the configuration, and
  no key is dropped: each of the four flags leaves its token under its key when it is
  on and the empty string when it is off; \<open>bounding_box\<close> is the empty string when
  \<^verbatim>\<open>BOUNDING_BOX\<close> is absent or empty, and the token otherwise;
  \<open>temporal_start_datetime\<close> is the empty string when the temporal start is empty, as
  it is when neither the margin nor the literal is configured, and the token otherwise.
\<close>

theorem job_params_keys:
  assumes "prepare_job w env ev = Inr j"
  shows "map fst (job_params j) = PARAM_KEYS \<and> length (job_params j) = 12
         \<and> distinct (map fst (job_params j))
         \<and> (\<exists>v b. env ''SMOKE_RUN'' = Some v \<and> strtobool v = Inr b
                \<and> map_of (job_params j) ''smoke_run'' = Some (if b then ''--smoke-run'' else ''''))
         \<and> (\<exists>v b. env ''DRY_RUN'' = Some v \<and> strtobool v = Inr b
                \<and> map_of (job_params j) ''dry_run'' = Some (if b then ''--dry-run'' else ''''))
         \<and> (\<exists>v b. env ''NO_SCHEDULE_DOWNLOAD'' = Some v \<and> strtobool v = Inr b
                \<and> map_of (job_params j) ''no_schedule_download''
                   = Some (if b then ''--no-schedule-download'' else ''''))
         \<and> (\<exists>v b. env ''USE_TEMPORAL'' = Some v \<and> strtobool v = Inr b
                \<and> map_of (job_params j) ''use_temporal''
                   = Some (if b then ''--use-temporal'' else ''''))
         \<and> map_of (job_params j) ''bounding_box''
            = Some (case env ''BOUNDING_BOX'' of
                      None \<Rightarrow> ''''
                    | Some b \<Rightarrow> if b = '''' then '''' else ''--bounds='' @ b)
         \<and> (\<exists>t qe. ev ''time'' = Some t \<and> isoparse w t = Inr qe
                \<and> map_of (job_params j) ''temporal_start_datetime''
                   = Some (if get_temporal_start_datetime env qe = '''' then ''''
                           else ''--temporal-start-date='' @ get_temporal_start_datetime env qe))
         \<and> (env ''TEMPORAL_START_DATETIME_MARGIN_DAYS'' = None
              \<and> env ''TEMPORAL_START_DATETIME'' = None
            \<longrightarrow> map_of (job_params j) ''temporal_start_datetime'' = Some '''')"
proof (rule prepare_job_InrE [OF assms])
  fix t qe qs jr ep dq cs v1 b1 v2 b2 v3 b3 v4 b4
  assume e: "ev ''time'' = Some t" "isoparse w t = Inr qe"
  assume v: "env ''SMOKE_RUN'' = Some v1" "strtobool v1 = Inr b1"
    "env ''DRY_RUN'' = Some v2" "strtobool v2 = Inr b2"
    "env ''NO_SCHEDULE_DOWNLOAD'' = Some v3" "strtobool v3 = Inr b3"
    "env ''USE_TEMPORAL'' = Some v4" "strtobool v4 = Inr b4"
  assume p: "job_params j =
       [(''start_datetime'', ''--start-date='' @ strftime qs DATETIME_FORMAT),
        (''end_datetime'', ''--end-date='' @ strftime qe DATETIME_FORMAT),
        (''endpoint'', ''--endpoint='' @ ep),
        (''download_job_release'', ''--release-version='' @ jr),
        (''download_job_queue'', ''--job-queue='' @ dq),
        (''chunk_size'', ''--chunk-size='' @ cs),
        (''smoke_run'', if b1 then ''--smoke-run'' else ''''),
        (''dry_run'', if b2 then ''--dry-run'' else ''''),
        (''no_schedule_download'', if b3 then ''--no-schedule-download'' else ''''),
        (''use_temporal'', if b4 then ''--use-temporal'' else ''''),
        (''temporal_start_datetime'',
           if get_temporal_start_datetime env qe \<noteq> ''''
           then ''--temporal-start-date='' @ get_temporal_start_datetime env qe else ''''),
        (''bounding_box'',
           case env ''BOUNDING_BOX'' of
             None \<Rightarrow> ''''
           | Some b \<Rightarrow> if b \<noteq> '''' then ''--bounds='' @ b else '''')]"
  have k: "map fst (job_params j) = PARAM_KEYS" "length (job_params j) = 12"
    "distinct (map fst (job_params j))"
    unfolding p PARAM_KEYS_def by simp_all
  have f: "map_of (job_params j) ''smoke_run'' = Some (if b1 then ''--smoke-run'' else '''')"
    "map_of (job_params j) ''dry_run'' = Some (if b2 then ''--dry-run'' else '''')"
    "map_of (job_params j) ''no_schedule_download''
       = Some (if b3 then ''--no-schedule-download'' else '''')"
    "map_of (job_params j) ''use_temporal'' = Some (if b4 then ''--use-temporal'' else '''')"
    unfolding p by simp_all
  have b: "map_of (job_params j) ''bounding_box''
            = Some (case env ''BOUNDING_BOX'' of
                      None \<Rightarrow> ''''
                    | Some b \<Rightarrow> if b = '''' then '''' else ''--bounds='' @ b)"
    unfolding p by (simp split: option.splits)
  have s: "map_of (job_params j) ''temporal_start_datetime''
            = Some (if get_temporal_start_datetime env qe = '''' then ''''
                    else ''--temporal-start-date='' @ get_temporal_start_datetime env qe)"
    unfolding p by simp
  have a: "map_of (job_params j) ''temporal_start_datetime'' = Some ''''"
    if "env ''TEMPORAL_START_DATETIME_MARGIN_DAYS'' = None
        \<and> env ''TEMPORAL_START_DATETIME'' = None"
    using that s by (simp add: get_temporal_start_absent)
  from v(1,2) f(1)
  have f1: "\<exists>v b. env ''SMOKE_RUN'' = Some v \<and> strtobool v = Inr b
              \<and> map_of (job_params j) ''smoke_run'' = Some (if b then ''--smoke-run'' else '''')"
    by (intro exI conjI)
  from v(3,4) f(2)
  have f2: "\<exists>v b. env ''DRY_RUN'' = Some v \<and> strtobool v = Inr b
              \<and> map_of (job_params j) ''dry_run'' = Some (if b then ''--dry-run'' else '''')"
    by (intro exI conjI)
  from v(5,6) f(3)
  have f3: "\<exists>v b. env ''NO_SCHEDULE_DOWNLOAD'' = Some v \<and> strtobool v = Inr b
              \<and> map_of (job_params j) ''no_schedule_download''
                 = Some (if b then ''--no-schedule-download'' else '''')"
    by (intro exI conjI)
  from v(7,8) f(4)
  have f4: "\<exists>v b. env ''USE_TEMPORAL'' = Some v \<and> strtobool v = Inr b
              \<and> map_of (job_params j) ''use_temporal''
                 = Some (if b then ''--use-temporal'' else '''')"
    by (intro exI conjI)
  from e s
  have s': "\<exists>t qe. ev ''time'' = Some t \<and> isoparse w t = Inr qe
              \<and> map_of (job_params j) ''temporal_start_datetime''
                 = Some (if get_temporal_start_datetime env qe = '''' then ''''
                         else ''--temporal-start-date='' @ get_temporal_start_datetime env qe)"
    by (intro exI conjI)
  from k f1 f2 f3 f4 b s' a show ?thesis
    by (intro conjI impI)
qed

theorem job_params_keys_witness:
  "prepare_job example_world example_environ example_event = Inr example_job
   \<and> map fst (job_params example_job) = PARAM_KEYS \<and> length (job_params example_job) = 12
   \<and> map_of (job_params example_job) ''smoke_run'' = Some ''--smoke-run''
   \<and> map_of (job_params example_job) ''dry_run'' = Some ''''
   \<and> map_of (job_params example_job) ''bounding_box'' = Some ''--bounds=-180,-90,180,90''
   \<and> prepare_job example_world bare_environ example_event = Inr bare_job
   \<and> map fst (job_params bare_job) = PARAM_KEYS \<and> length (job_params bare_job) = 12
   \<and> bare_environ ''BOUNDING_BOX'' = None
   \<and> map_of (job_params bare_job) ''bounding_box'' = Some ''''
   \<and> bare_environ ''TEMPORAL_START_DATETIME_MARGIN_DAYS'' = None
   \<and> bare_environ ''TEMPORAL_START_DATETIME'' = None
   \<and> map_of (job_params bare_job) ''temporal_start_datetime'' = Some ''''"
proof -
  have n: "bare_environ ''BOUNDING_BOX'' = None"
    "bare_environ ''TEMPORAL_START_DATETIME_MARGIN_DAYS'' = None"
    "bare_environ ''TEMPORAL_START_DATETIME'' = None"
    by (simp_all add: bare_environ_def example_environ_def)
  have x: "example_environ ''SMOKE_RUN'' = Some ''true''" "strtobool ''true'' = Inr True"
    "example_environ ''DRY_RUN'' = Some ''false''" "strtobool ''false'' = Inr False"
    "example_environ ''BOUNDING_BOX'' = Some ''-180,-90,180,90''"
    by code_simp+
  from job_params_keys [OF prepare_job_example] x
  have a: "map fst (job_params example_job) = PARAM_KEYS \<and> length (job_params example_job) = 12
           \<and> map_of (job_params example_job) ''smoke_run'' = Some ''--smoke-run''
           \<and> map_of (job_params example_job) ''dry_run'' = Some ''''
           \<and> map_of (job_params example_job) ''bounding_box'' = Some ''--bounds=-180,-90,180,90''"
    by auto
  from job_params_keys [OF prepare_job_bare] n
  have b: "map fst (job_params bare_job) = PARAM_KEYS \<and> length (job_params bare_job) = 12
           \<and> map_of (job_params bare_job) ''bounding_box'' = Some ''''
           \<and> map_of (job_params bare_job) ''temporal_start_datetime'' = Some ''''"
    by simp
  from a b n prepare_job_example prepare_job_bare show ?thesis by simp
qed

text \<open>
  C6. The job parameter \<open>bounding_box\<close> is the token \<^verbatim>\<open>--bounds=<value>\<close> when
  \<^verbatim>\<open>BOUNDING_BOX\<close> is set to a non-empty value, and the empty string when it is
  unset or empty.
\<close>

theorem bounding_box_token:
  assumes "prepare_job w env ev = Inr j"
  shows "map_of (job_params j) ''bounding_box''
         = Some (case env ''BOUNDING_BOX'' of
                   None \<Rightarrow> ''''
                 | Some b \<Rightarrow> if b = '''' then '''' else ''--bounds='' @ b)"
  using assms by (elim prepare_job_InrE) (simp split: option.splits)

theorem bounding_box_token_witness:
  "prepare_job example_world example_environ example_event = Inr example_job
   \<and> example_environ ''BOUNDING_BOX'' = Some ''-180,-90,180,90''
   \<and> map_of (job_params example_job) ''bounding_box'' = Some ''--bounds=-180,-90,180,90''"
proof -
  have "example_environ ''BOUNDING_BOX'' = Some ''-180,-90,180,90''"
    by (simp add: example_environ_def)
  with bounding_box_token [OF prepare_job_example] prepare_job_example
  show ?thesis by simp
qed

text \<open>
  C7. Every call of \<^verbatim>\<open>submit_job\<close> sends one request, to the URL it was given. Its
  form fields are \<open>queue\<close>, \<open>priority\<close>, \<open>tags\<close>, \<open>type\<close>, \<open>params\<close> and \<open>name\<close>,
  in this order and no others. \<open>queue\<close>, \<open>type\<close> and \<open>name\<close> are the arguments as
  they are; \<open>tags\<close> is a text that a JSON reader reads as the tag list, and \<open>params\<close>
  a text that it reads as the job parameters, key by key in their order; \<open>priority\<close>
  is the argument, and 0 when the caller passes none.
\<close>

theorem form_fields:
  "snd (submit_job w u name spec params q ts prio) = [job_request u name spec params q ts prio]
   \<and> url (job_request u name spec params q ts prio) = u
   \<and> map fst (data (job_request u name spec params q ts prio)) = FORM_KEYS
   \<and> map_of (data (job_request u name spec params q ts prio)) ''queue'' = Some (FormStr q)
   \<and> map_of (data (job_request u name spec params q ts prio)) ''type'' = Some (FormStr spec)
   \<and> map_of (data (job_request u name spec params q ts prio)) ''name'' = Some (FormStr name)
   \<and> (\<exists>t. map_of (data (job_request u name spec params q ts prio)) ''tags''
             = Some (FormStr t)
          \<and> json_loads_list t = Some ts)
   \<and> (\<exists>p. map_of (data (job_request u name spec params q ts prio)) ''params''
             = Some (FormStr p)
          \<and> json_loads_dict p = Some params)
   \<and> map_of (data (job_request u name spec params q ts prio)) ''priority''
      = Some (FormInt (case prio of None \<Rightarrow> 0 | Some p \<Rightarrow> p))
   \<and> map_of (data (job_request u name spec params q ts None)) ''priority''
      = Some (FormInt 0)"
proof -
  have d: "data (job_request u name spec params q ts prio)
           = [(''queue'', FormStr q),
              (''priority'', FormInt (case prio of None \<Rightarrow> 0 | Some p \<Rightarrow> p)),
              (''tags'', FormStr (json_dumps_list ts)),
              (''type'', FormStr spec),
              (''params'', FormStr (json_dumps_dict params)),
              (''name'', FormStr name)]" for prio
    by (simp add: job_request_def)
  have t: "\<exists>t. map_of (data (job_request u name spec params q ts prio)) ''tags''
               = Some (FormStr t)
            \<and> json_loads_list t = Some ts"
    unfolding d by (simp add: json_loads_list_dumps)
  have p: "\<exists>p. map_of (data (job_request u name spec params q ts prio)) ''params''
               = Some (FormStr p)
            \<and> json_loads_dict p = Some params"
    unfolding d by (simp add: json_loads_dict_dumps)
  have k: "map fst (data (job_request u name spec params q ts prio)) = FORM_KEYS"
    "map_of (data (job_request u name spec params q ts prio)) ''queue'' = Some (FormStr q)"
    "map_of (data (job_request u name spec params q ts prio)) ''type'' = Some (FormStr spec)"
    "map_of (data (job_request u name spec params q ts prio)) ''name'' = Some (FormStr name)"
    "map_of (data (job_request u name spec params q ts prio)) ''priority''
      = Some (FormInt (case prio of None \<Rightarrow> 0 | Some p \<Rightarrow> p))"
    "map_of (data (job_request u name spec params q ts None)) ''priority'' = Some (FormInt 0)"
    unfolding d FORM_KEYS_def by simp_all
  have u: "url (job_request u name spec params q ts prio) = u"
    by (simp add: job_request_def)
  from submit_job_snd [of w u name spec params q ts prio] u k(1,2,3,4) t p k(5,6)
  show ?thesis by (intro conjI)
qed

theorem form_fields_witness:
  "snd (submit_job example_world (url example_request) (job_name example_job)
          (job_spec example_job) (job_params example_job) (queue example_job)
          (tags example_job) None)
     = [example_request]
   \<and> url example_request = ''https://mozart/api/v0.1/job/submit?enable_dedup=false''
   \<and> data example_request
      = [(''queue'', FormStr ''factotum-job_worker-small''),
         (''priority'', FormInt 0),
         (''tags'', FormStr example_tags_json),
         (''type'', FormStr ''job-data-subscriber-query:1.0.0''),
         (''params'', FormStr example_params_json),
         (''name'', FormStr ''data-subscriber-query-timer-20240101T001007_5'')]
   \<and> json_loads_list example_tags_json = Some [''data-subscriber-query-timer'']
   \<and> json_loads_dict example_params_json = Some (job_params example_job)"
proof -
  let ?r = "job_request (url example_request) (job_name example_job) (job_spec example_job)
              (job_params example_job) (queue example_job) (tags example_job) None"
  have r: "?r = example_request"
    by (simp add: example_request_def job_request_def)
  have d: "data example_request
      = [(''queue'', FormStr ''factotum-job_worker-small''),
         (''priority'', FormInt 0),
         (''tags'', FormStr example_tags_json),
         (''type'', FormStr ''job-data-subscriber-query:1.0.0''),
         (''params'', FormStr example_params_json),
         (''name'', FormStr ''data-subscriber-query-timer-20240101T001007_5'')]"
    by code_simp
  have g: "tags example_job = [''data-subscriber-query-timer'']"
    by (simp add: example_job_def)
  note f = form_fields [of example_world "url example_request" "job_name example_job"
      "job_spec example_job" "job_params example_job" "queue example_job" "tags example_job"
      None, unfolded r]
  from f have s: "snd (submit_job example_world (url example_request) (job_name example_job)
          (job_spec example_job) (job_params example_job) (queue example_job)
          (tags example_job) None) = [example_request]"
    by (rule conjunct1)
  from f obtain t where t: "map_of (data example_request) ''tags'' = Some (FormStr t)"
    "json_loads_list t = Some (tags example_job)"
    by (elim conjE exE)
  from f obtain p where p: "map_of (data example_request) ''params'' = Some (FormStr p)"
    "json_loads_dict p = Some (job_params example_job)"
    by (elim conjE exE)
  from t(1) have "t = example_tags_json" unfolding d by simp
  with t(2) g have a: "json_loads_list example_tags_json = Some [''data-subscriber-query-timer'']"
    by simp
  from p(1) have "p = example_params_json" unfolding d by simp
  with p(2) have b: "json_loads_dict example_params_json = Some (job_params example_job)"
    by simp
  have v: "url example_request = ''https://mozart/api/v0.1/job/submit?enable_dedup=false''"
    by (simp add: example_request_def job_request_def)
  from s v d a b show ?thesis by (intro conjI)
qed




text \<open>
  C5. For each of the four flags of \<open>FLAGS\<close>: when the handler gets as far as its
  job parameters, the configured string is a truth value of \<^verbatim>\<open>strtobool\<close>, and the
  job parameter is the flag's token if it is true and the empty string if it is
  false; when the configured string is no truth value, the invocation fails, and
  nothing is sent.
\<close>

theorem flag_tokens:
  assumes "(k, key, token) \<in> set FLAGS"
  shows "(\<forall>j. prepare_job w env ev = Inr j \<longrightarrow>
            (\<exists>v b. env k = Some v \<and> strtobool v = Inr b
                   \<and> map_of (job_params j) key = Some (if b then token else '''')))
         \<and> (\<forall>v. env k = Some v \<and> strtobool v = Inl ValueError \<longrightarrow>
               (\<exists>e. invocation w env ev = (Inl e, [])))"
proof (intro conjI allI impI)
  fix j
  assume "prepare_job w env ev = Inr j"
  then show "\<exists>v b. env k = Some v \<and> strtobool v = Inr b
                   \<and> map_of (job_params j) key = Some (if b then token else '''')"
    using assms by (rule prepare_job_flag)
next
  fix v
  assume v: "env k = Some v \<and> strtobool v = Inl ValueError"
  have "prepare_job w env ev \<noteq> Inr j" for j
  proof
    assume "prepare_job w env ev = Inr j"
    from prepare_job_flag [OF this assms] v show False by auto
  qed
  then show "\<exists>e. invocation w env ev = (Inl e, [])"
    by (rule invocation_fails_prepare)
qed

theorem flag_tokens_witness:
  "(''DRY_RUN'', ''dry_run'', ''--dry-run'') \<in> set FLAGS
   \<and> prepare_job example_world example_environ example_event = Inr example_job
   \<and> (\<exists>v b. example_environ ''DRY_RUN'' = Some v \<and> strtobool v = Inr b
          \<and> map_of (job_params example_job) ''dry_run''
             = Some (if b then ''--dry-run'' else ''''))
   \<and> malformed_environ ''DRY_RUN'' = Some ''maybe'' \<and> strtobool ''maybe'' = Inl ValueError
   \<and> (\<exists>e. invocation example_world malformed_environ example_event = (Inl e, []))"
proof -
  have m: "(''DRY_RUN'', ''dry_run'', ''--dry-run'') \<in> set FLAGS"
    by (simp add: FLAGS_def)
  have v: "malformed_environ ''DRY_RUN'' = Some ''maybe'' \<and> strtobool ''maybe'' = Inl ValueError"
    by code_simp
  from flag_tokens [OF m, of example_world malformed_environ example_event]
  have "\<forall>v. malformed_environ ''DRY_RUN'' = Some v \<and> strtobool v = Inl ValueError \<longrightarrow>
          (\<exists>e. invocation example_world malformed_environ example_event = (Inl e, []))"
    by (rule conjunct2)
  then have "malformed_environ ''DRY_RUN'' = Some ''maybe'' \<and> strtobool ''maybe'' = Inl ValueError
        \<longrightarrow> (\<exists>e. invocation example_world malformed_environ example_event = (Inl e, []))"
    by (rule spec)
  from this v
  have a: "\<exists>e. invocation example_world malformed_environ example_event = (Inl e, [])"
    by (rule mp)
  from flag_tokens [OF m, of example_world example_environ example_event]
  have "\<forall>j. prepare_job example_world example_environ example_event = Inr j \<longrightarrow>
          (\<exists>v b. example_environ ''DRY_RUN'' = Some v \<and> strtobool v = Inr b
             \<and> map_of (job_params j) ''dry_run'' = Some (if b then ''--dry-run'' else ''''))"
    by (rule conjunct1)
  then have "prepare_job example_world example_environ example_event = Inr example_job \<longrightarrow>
          (\<exists>v b. example_environ ''DRY_RUN'' = Some v \<and> strtobool v = Inr b
             \<and> map_of (job_params example_job) ''dry_run''
                = Some (if b then ''--dry-run'' else ''''))"
    by (rule spec)
  from this prepare_job_example
  have b: "\<exists>v b. example_environ ''DRY_RUN'' = Some v \<and> strtobool v = Inr b
             \<and> map_of (job_params example_job) ''dry_run''
                = Some (if b then ''--dry-run'' else '''')"
    by (rule mp)
  from m prepare_job_example b v a show ?thesis by (intro conjI) simp_all
qed

text \<open>
  C8. When a setting of \<open>REQUIRED\<close> is missing, when the string of a flag is no truth
  value, or when the parser rejects the event's \<open>time\<close>, the invocation ends in an
  exception and has sent no request.
\<close>

theorem fails_before_post:
  assumes "(\<exists>k \<in> set REQUIRED. env k = None)
           \<or> (\<exists>(k, key, token) \<in> set FLAGS. \<exists>v. env k = Some v \<and> strtobool v = Inl ValueError)
           \<or> (\<exists>t e. ev ''time'' = Some t \<and> isoparse w t = Inl e)"
  shows "\<exists>e. invocation w env ev = (Inl e, [])"
proof (cases "load_module env")
  case (Inl a)
  then show ?thesis by (rule invocation_fails_load)
next
  case (Inr u)
  then have mz: "env ''MOZART_URL'' \<noteq> None"
    by (auto simp: load_module_def split: option.splits)
  have "prepare_job w env ev \<noteq> Inr j" for j
  proof
    assume p: "prepare_job w env ev = Inr j"
    from assms consider
        (missing) k where "k \<in> set REQUIRED" "env k = None"
      | (malformed) k key token v where "(k, key, token) \<in> set FLAGS" "env k = Some v"
          "strtobool v = Inl ValueError"
      | (time) t e where "ev ''time'' = Some t" "isoparse w t = Inl e"
      by (elim disjE bexE exE conjE) (simp_all add: split_def, metis prod.collapse)
    then show False
    proof cases
      case missing
      with mz have "k \<noteq> ''MOZART_URL''" by auto
      from prepare_job_required [OF p missing(1) this] missing(2) show False by simp
    next
      case malformed
      from prepare_job_flag [OF p malformed(1)] malformed(2,3) show False by auto
    next
      case time
      from p time show False by (elim prepare_job_window) simp
    qed
  qed
  then show ?thesis by (rule invocation_fails_prepare)
qed

theorem fails_before_post_witness:
  "''ENDPOINT'' \<in> set REQUIRED \<and> incomplete_environ ''ENDPOINT'' = None
   \<and> (\<exists>e. invocation example_world incomplete_environ example_event = (Inl e, []))
   \<and> (''DRY_RUN'', ''dry_run'', ''--dry-run'') \<in> set FLAGS
   \<and> malformed_environ ''DRY_RUN'' = Some ''maybe'' \<and> strtobool ''maybe'' = Inl ValueError
   \<and> (\<exists>e. invocation example_world malformed_environ example_event = (Inl e, []))
   \<and> garbled_event ''time'' = Some ''yesterday''
   \<and> isoparse example_world ''yesterday'' = Inl ValueError
   \<and> (\<exists>e. invocation example_world example_environ garbled_event = (Inl e, []))"
proof -
  have a: "''ENDPOINT'' \<in> set REQUIRED" "incomplete_environ ''ENDPOINT'' = None"
    by (simp_all add: REQUIRED_def incomplete_environ_def)
  have b: "(''DRY_RUN'', ''dry_run'', ''--dry-run'') \<in> set FLAGS"
    "malformed_environ ''DRY_RUN'' = Some ''maybe''" "strtobool ''maybe'' = Inl ValueError"
    by code_simp+
  have c: "garbled_event ''time'' = Some ''yesterday''"
    "isoparse example_world ''yesterday'' = Inl ValueError"
    by code_simp+
  have "\<exists>k \<in> set REQUIRED. incomplete_environ k = None"
    using a by (rule bexI [rotated])
  then have a': "\<exists>e. invocation example_world incomplete_environ example_event = (Inl e, [])"
    by (intro fails_before_post disjI1)
  have "\<exists>(k, key, token) \<in> set FLAGS.
          \<exists>v. malformed_environ k = Some v \<and> strtobool v = Inl ValueError"
    using b by (intro bexI [of _ "(''DRY_RUN'', ''dry_run'', ''--dry-run'')"]) simp_all
  then have b': "\<exists>e. invocation example_world malformed_environ example_event = (Inl e, [])"
    by (intro fails_before_post disjI2 disjI1)
  have "\<exists>t e. garbled_event ''time'' = Some t \<and> isoparse example_world t = Inl e"
    using c by (intro exI conjI)
  then have c': "\<exists>e. invocation example_world example_environ garbled_event = (Inl e, [])"
    by (intro fails_before_post disjI2)
  from a a' b b' c c' show ?thesis by (intro conjI)
qed

text \<open>
  C9. The window is the first run of decimal digits of \<^verbatim>\<open>MINUTES\<close>: text before
  the run that holds no digit, and whatever follows the run, are dropped, a minus
  sign included, and the digits are read as a decimal number (\<^verbatim>\<open>int\<close> takes a run of
  up to 4300 digits). Whenever the handler gets as far as its job parameters, that
  number is the number of minutes the start of the window lies before its end; and
  it does get that far, with this start of the window, when the parser accepts the
  event's \<open>time\<close>, the start of the window is within the range of \<^verbatim>\<open>datetime\<close>, and
  the rest of the configuration is in order. A \<^verbatim>\<open>MINUTES\<close> without any digit makes
  the invocation fail with nothing sent.
\<close>

theorem window_minutes:
  "(env ''MINUTES'' = Some (pre @ ds @ suf) \<and> (\<forall>c \<in> set pre. \<not> isdigit c)
      \<and> ds \<noteq> [] \<and> (\<forall>c \<in> set ds. isdigit c) \<and> takeWhile isdigit suf = []
    \<longrightarrow> minutes_of env = Inr ds
        \<and> to_int ds = (if length ds \<le> MAX_STR_DIGITS then Inr (digits_value ds)
                       else Inl ValueError)
        \<and> (\<forall>j. prepare_job w env ev = Inr j \<longrightarrow>
              (\<exists>t qe qs. ev ''time'' = Some t \<and> isoparse w t = Inr qe
                 \<and> datetime_add qe \<lparr>rd_days = 0, rd_minutes = - digits_value ds\<rparr> = Inr qs
                 \<and> wall_seconds qs = wall_seconds qe - 60 * digits_value ds
                 \<and> map_of (job_params j) ''start_datetime''
                    = Some (''--start-date='' @ strftime qs DATETIME_FORMAT)))
        \<and> (\<forall>t qe qs. ev ''time'' = Some t \<and> isoparse w t = Inr qe
                 \<and> length ds \<le> MAX_STR_DIGITS
                 \<and> datetime_add qe \<lparr>rd_days = 0, rd_minutes = - digits_value ds\<rparr> = Inr qs
                 \<and> configured env
              \<longrightarrow> (\<exists>j. prepare_job w env ev = Inr j
                     \<and> map_of (job_params j) ''start_datetime''
                        = Some (''--start-date='' @ strftime qs DATETIME_FORMAT))))
   \<and> (\<forall>s. env ''MINUTES'' = Some s \<and> (\<forall>c \<in> set s. \<not> isdigit c)
         \<longrightarrow> (\<exists>e. invocation w env ev = (Inl e, [])))"
proof -
  have first: "env ''MINUTES'' = Some (pre @ ds @ suf) \<and> (\<forall>c \<in> set pre. \<not> isdigit c)
      \<and> ds \<noteq> [] \<and> (\<forall>c \<in> set ds. isdigit c) \<and> takeWhile isdigit suf = []
    \<longrightarrow> minutes_of env = Inr ds
        \<and> to_int ds = (if length ds \<le> MAX_STR_DIGITS then Inr (digits_value ds)
                       else Inl ValueError)
        \<and> (\<forall>j. prepare_job w env ev = Inr j \<longrightarrow>
              (\<exists>t qe qs. ev ''time'' = Some t \<and> isoparse w t = Inr qe
                 \<and> datetime_add qe \<lparr>rd_days = 0, rd_minutes = - digits_value ds\<rparr> = Inr qs
                 \<and> wall_seconds qs = wall_seconds qe - 60 * digits_value ds
                 \<and> map_of (job_params j) ''start_datetime''
                    = Some (''--start-date='' @ strftime qs DATETIME_FORMAT)))
        \<and> (\<forall>t qe qs. ev ''time'' = Some t \<and> isoparse w t = Inr qe
                 \<and> length ds \<le> MAX_STR_DIGITS
                 \<and> datetime_add qe \<lparr>rd_days = 0, rd_minutes = - digits_value ds\<rparr> = Inr qs
                 \<and> configured env
              \<longrightarrow> (\<exists>j. prepare_job w env ev = Inr j
                     \<and> map_of (job_params j) ''start_datetime''
                        = Some (''--start-date='' @ strftime qs DATETIME_FORMAT)))"
  proof (rule impI)
    assume h: "env ''MINUTES'' = Some (pre @ ds @ suf) \<and> (\<forall>c \<in> set pre. \<not> isdigit c)
        \<and> ds \<noteq> [] \<and> (\<forall>c \<in> set ds. isdigit c) \<and> takeWhile isdigit suf = []"
    then have sd: "search_digits (pre @ ds @ suf) = Some ds"
      by (intro search_digits_run) simp_all
    with h have m: "minutes_of env = Inr ds"
      by (simp add: minutes_of_Inr_iff)
    from h have "py_int ds = (if length ds \<le> MAX_STR_DIGITS then Some (digits_value ds) else None)"
      by (intro py_int_digits) simp_all
    then have i: "to_int ds = (if length ds \<le> MAX_STR_DIGITS then Inr (digits_value ds)
                               else Inl ValueError)"
      by (simp add: to_int_def)
    have a: "\<forall>j. prepare_job w env ev = Inr j \<longrightarrow>
              (\<exists>t qe qs. ev ''time'' = Some t \<and> isoparse w t = Inr qe
                 \<and> datetime_add qe \<lparr>rd_days = 0, rd_minutes = - digits_value ds\<rparr> = Inr qs
                 \<and> wall_seconds qs = wall_seconds qe - 60 * digits_value ds
                 \<and> map_of (job_params j) ''start_datetime''
                    = Some (''--start-date='' @ strftime qs DATETIME_FORMAT))"
    proof (intro allI impI)
      fix j
      assume "prepare_job w env ev = Inr j"
      then show "\<exists>t qe qs. ev ''time'' = Some t \<and> isoparse w t = Inr qe
                     \<and> datetime_add qe \<lparr>rd_days = 0, rd_minutes = - digits_value ds\<rparr> = Inr qs
                     \<and> wall_seconds qs = wall_seconds qe - 60 * digits_value ds
                     \<and> map_of (job_params j) ''start_datetime''
                        = Some (''--start-date='' @ strftime qs DATETIME_FORMAT)"
      proof (rule prepare_job_window)
        fix t qe ms m' qs
        assume f: "ev ''time'' = Some t" "isoparse w t = Inr qe" "minutes_of env = Inr ms"
          "to_int ms = Inr m'" "datetime_add qe \<lparr>rd_days = 0, rd_minutes = - m'\<rparr> = Inr qs"
          and p: "map_of (job_params j) ''start_datetime''
                      = Some (''--start-date='' @ strftime qs DATETIME_FORMAT)"
        from f(3) m have e1: "ms = ds" by simp
        with f(4) i have e2: "m' = digits_value ds" by (simp split: if_splits)
        from datetime_add_wall_seconds(1) [OF f(5)] e2
        have "wall_seconds qs = wall_seconds qe - 60 * digits_value ds" by simp
        with f e1 e2 p show ?thesis by (intro exI conjI) simp_all
      qed
    qed
    have b: "\<forall>t qe qs. ev ''time'' = Some t \<and> isoparse w t = Inr qe
                 \<and> length ds \<le> MAX_STR_DIGITS
                 \<and> datetime_add qe \<lparr>rd_days = 0, rd_minutes = - digits_value ds\<rparr> = Inr qs
                 \<and> configured env
              \<longrightarrow> (\<exists>j. prepare_job w env ev = Inr j
                     \<and> map_of (job_params j) ''start_datetime''
                        = Some (''--start-date='' @ strftime qs DATETIME_FORMAT))"
    proof (intro allI impI)
      fix t qe qs
      assume g: "ev ''time'' = Some t \<and> isoparse w t = Inr qe
                   \<and> length ds \<le> MAX_STR_DIGITS
                   \<and> datetime_add qe \<lparr>rd_days = 0, rd_minutes = - digits_value ds\<rparr> = Inr qs
                   \<and> configured env"
      then have g': "ev ''time'' = Some t" "isoparse w t = Inr qe"
        "length ds \<le> MAX_STR_DIGITS"
        "datetime_add qe \<lparr>rd_days = 0, rd_minutes = - digits_value ds\<rparr> = Inr qs"
        "configured env"
        by simp_all
      from h have h': "env ''MINUTES'' = Some (pre @ ds @ suf)" by simp
      show "\<exists>j. prepare_job w env ev = Inr j
                       \<and> map_of (job_params j) ''start_datetime''
                          = Some (''--start-date='' @ strftime qs DATETIME_FORMAT)"
        by (rule prepare_job_configured [where ev = ev and env = env and w = w,
              OF g'(1,2) h' sd g'(3,4,5)])
    qed
    from m i a b
    show "minutes_of env = Inr ds
        \<and> to_int ds = (if length ds \<le> MAX_STR_DIGITS then Inr (digits_value ds)
                       else Inl ValueError)
        \<and> (\<forall>j. prepare_job w env ev = Inr j \<longrightarrow>
              (\<exists>t qe qs. ev ''time'' = Some t \<and> isoparse w t = Inr qe
                 \<and> datetime_add qe \<lparr>rd_days = 0, rd_minutes = - digits_value ds\<rparr> = Inr qs
                 \<and> wall_seconds qs = wall_seconds qe - 60 * digits_value ds
                 \<and> map_of (job_params j) ''start_datetime''
                    = Some (''--start-date='' @ strftime qs DATETIME_FORMAT)))
        \<and> (\<forall>t qe qs. ev ''time'' = Some t \<and> isoparse w t = Inr qe
                 \<and> length ds \<le> MAX_STR_DIGITS
                 \<and> datetime_add qe \<lparr>rd_days = 0, rd_minutes = - digits_value ds\<rparr> = Inr qs
                 \<and> configured env
              \<longrightarrow> (\<exists>j. prepare_job w env ev = Inr j
                     \<and> map_of (job_params j) ''start_datetime''
                        = Some (''--start-date='' @ strftime qs DATETIME_FORMAT)))"
      by (intro conjI)
  qed
  have second: "\<forall>s. env ''MINUTES'' = Some s \<and> (\<forall>c \<in> set s. \<not> isdigit c)
         \<longrightarrow> (\<exists>e. invocation w env ev = (Inl e, []))"
  proof (intro allI impI)
    fix s
    assume h: "env ''MINUTES'' = Some s \<and> (\<forall>c \<in> set s. \<not> isdigit c)"
    then have n: "search_digits s = None" by (intro search_digits_none) simp
    have "prepare_job w env ev \<noteq> Inr j" for j
    proof
      assume "prepare_job w env ev = Inr j"
      then show False
        using h n by (elim prepare_job_window) (simp add: minutes_of_Inr_iff)
    qed
    then show "\<exists>e. invocation w env ev = (Inl e, [])"
      by (rule invocation_fails_prepare)
  qed
  from first second show ?thesis by (rule conjI)
qed

theorem window_minutes_witness:
  "minutes_of quarter_environ = Inr ''15'' \<and> to_int ''15'' = Inr 15
   \<and> (\<exists>j. prepare_job example_world quarter_environ example_event = Inr j
          \<and> map_of (job_params j) ''start_datetime''
             = Some ''--start-date=2023-12-31T23:55:00Z'')
   \<and> minutes_of minus_environ = Inr ''5'' \<and> to_int ''5'' = Inr 5
   \<and> (\<exists>j. prepare_job example_world minus_environ example_event = Inr j
          \<and> map_of (job_params j) ''start_datetime''
             = Some ''--start-date=2024-01-01T00:05:00Z'')
   \<and> prepare_job example_world example_environ example_event = Inr example_job
   \<and> (\<exists>t qe qs. example_event ''time'' = Some t \<and> isoparse example_world t = Inr qe
          \<and> datetime_add qe \<lparr>rd_days = 0, rd_minutes = - 5\<rparr> = Inr qs
          \<and> wall_seconds qs = wall_seconds qe - 60 * 5
          \<and> map_of (job_params example_job) ''start_datetime''
             = Some (''--start-date='' @ strftime qs DATETIME_FORMAT))
   \<and> (\<exists>e. invocation example_world wordy_environ example_event = (Inl e, []))"
proof -
  let ?t = "''2024-01-01T00:10:00Z''"
  have v: "digits_value ''15'' = 15" "digits_value ''5'' = 5"
    by code_simp+
  have l: "length ''15'' \<le> MAX_STR_DIGITS" "length ''5'' \<le> MAX_STR_DIGITS"
    by (simp_all add: MAX_STR_DIGITS_def)
  have q: "quarter_environ ''MINUTES'' = Some ('''' @ ''15'' @ ''min'')
           \<and> (\<forall>c \<in> set ''''. \<not> isdigit c) \<and> ''15'' \<noteq> '''' \<and> (\<forall>c \<in> set ''15''. isdigit c)
           \<and> takeWhile isdigit ''min'' = []"
    by code_simp
  have m: "minus_environ ''MINUTES'' = Some (''-'' @ ''5'' @ '''')
           \<and> (\<forall>c \<in> set ''-''. \<not> isdigit c) \<and> ''5'' \<noteq> '''' \<and> (\<forall>c \<in> set ''5''. isdigit c)
           \<and> takeWhile isdigit '''' = []"
    by code_simp
  have x: "example_environ ''MINUTES'' = Some ('''' @ ''5'' @ '''')
           \<and> (\<forall>c \<in> set ''''. \<not> isdigit c) \<and> ''5'' \<noteq> '''' \<and> (\<forall>c \<in> set ''5''. isdigit c)
           \<and> takeWhile isdigit '''' = []"
    by code_simp
  have n: "wordy_environ ''MINUTES'' = Some ''five'' \<and> (\<forall>c \<in> set ''five''. \<not> isdigit c)"
    by code_simp
  have e: "example_event ''time'' = Some ?t" "isoparse example_world ?t = Inr example_end"
    by code_simp+
  have c: "configured quarter_environ" "configured minus_environ"
    by code_simp+
  have d15: "datetime_add example_end \<lparr>rd_days = 0, rd_minutes = - digits_value ''15''\<rparr>
             = Inr quarter_start"
    by code_simp
  have d5: "datetime_add example_end \<lparr>rd_days = 0, rd_minutes = - digits_value ''5''\<rparr>
            = Inr example_start"
    by code_simp
  have s: "strftime quarter_start DATETIME_FORMAT = ''2023-12-31T23:55:00Z''"
    "strftime example_start DATETIME_FORMAT = ''2024-01-01T00:05:00Z''"
    by code_simp+
  note q' = window_minutes [of quarter_environ "''''" "''15''" "''min''" example_world
      example_event, THEN conjunct1, THEN mp, OF q]
  note m' = window_minutes [of minus_environ "''-''" "''5''" "''''" example_world
      example_event, THEN conjunct1, THEN mp, OF m]
  note x' = window_minutes [of example_environ "''''" "''5''" "''''" example_world
      example_event, THEN conjunct1, THEN mp, OF x]
  from q' l v
  have a: "minutes_of quarter_environ = Inr ''15'' \<and> to_int ''15'' = Inr 15"
    by simp
  from m' l v
  have b: "minutes_of minus_environ = Inr ''5'' \<and> to_int ''5'' = Inr 5"
    by simp
  from q' [THEN conjunct2, THEN conjunct2, THEN conjunct2, THEN spec, THEN spec, THEN spec,
      of ?t example_end quarter_start]
  have "example_event ''time'' = Some ?t \<and> isoparse example_world ?t = Inr example_end
          \<and> length ''15'' \<le> MAX_STR_DIGITS
          \<and> datetime_add example_end \<lparr>rd_days = 0, rd_minutes = - digits_value ''15''\<rparr>
             = Inr quarter_start
          \<and> configured quarter_environ
        \<longrightarrow> (\<exists>j. prepare_job example_world quarter_environ example_event = Inr j
               \<and> map_of (job_params j) ''start_datetime''
                  = Some (''--start-date='' @ strftime quarter_start DATETIME_FORMAT))" .
  moreover from e l(1) d15 c(1)
  have "example_event ''time'' = Some ?t \<and> isoparse example_world ?t = Inr example_end
          \<and> length ''15'' \<le> MAX_STR_DIGITS
          \<and> datetime_add example_end \<lparr>rd_days = 0, rd_minutes = - digits_value ''15''\<rparr>
             = Inr quarter_start
          \<and> configured quarter_environ"
    by (intro conjI)
  ultimately
  have a': "\<exists>j. prepare_job example_world quarter_environ example_event = Inr j
               \<and> map_of (job_params j) ''start_datetime''
                  = Some (''--start-date='' @ strftime quarter_start DATETIME_FORMAT)"
    by (rule mp)
  from m' [THEN conjunct2, THEN conjunct2, THEN conjunct2, THEN spec, THEN spec, THEN spec,
      of ?t example_end example_start]
  have "example_event ''time'' = Some ?t \<and> isoparse example_world ?t = Inr example_end
          \<and> length ''5'' \<le> MAX_STR_DIGITS
          \<and> datetime_add example_end \<lparr>rd_days = 0, rd_minutes = - digits_value ''5''\<rparr>
             = Inr example_start
          \<and> configured minus_environ
        \<longrightarrow> (\<exists>j. prepare_job example_world minus_environ example_event = Inr j
               \<and> map_of (job_params j) ''start_datetime''
                  = Some (''--start-date='' @ strftime example_start DATETIME_FORMAT))" .
  moreover from e l(2) d5 c(2)
  have "example_event ''time'' = Some ?t \<and> isoparse example_world ?t = Inr example_end
          \<and> length ''5'' \<le> MAX_STR_DIGITS
          \<and> datetime_add example_end \<lparr>rd_days = 0, rd_minutes = - digits_value ''5''\<rparr>
             = Inr example_start
          \<and> configured minus_environ"
    by (intro conjI)
  ultimately
  have b': "\<exists>j. prepare_job example_world minus_environ example_event = Inr j
               \<and> map_of (job_params j) ''start_datetime''
                  = Some (''--start-date='' @ strftime example_start DATETIME_FORMAT)"
    by (rule mp)
  from x' [THEN conjunct2, THEN conjunct2, THEN conjunct1, THEN spec, of example_job]
  have "prepare_job example_world example_environ example_event = Inr example_job \<longrightarrow>
          (\<exists>t qe qs. example_event ''time'' = Some t \<and> isoparse example_world t = Inr qe
             \<and> datetime_add qe \<lparr>rd_days = 0, rd_minutes = - digits_value ''5''\<rparr> = Inr qs
             \<and> wall_seconds qs = wall_seconds qe - 60 * digits_value ''5''
             \<and> map_of (job_params example_job) ''start_datetime''
                = Some (''--start-date='' @ strftime qs DATETIME_FORMAT))" .
  from this prepare_job_example
  have c': "\<exists>t qe qs. example_event ''time'' = Some t \<and> isoparse example_world t = Inr qe
             \<and> datetime_add qe \<lparr>rd_days = 0, rd_minutes = - digits_value ''5''\<rparr> = Inr qs
             \<and> wall_seconds qs = wall_seconds qe - 60 * digits_value ''5''
             \<and> map_of (job_params example_job) ''start_datetime''
                = Some (''--start-date='' @ strftime qs DATETIME_FORMAT)"
    by (rule mp)
  from window_minutes [of wordy_environ "''''" "''5''" "''''" example_world example_event]
  have "\<forall>s. wordy_environ ''MINUTES'' = Some s \<and> (\<forall>c \<in> set s. \<not> isdigit c)
          \<longrightarrow> (\<exists>e. invocation example_world wordy_environ example_event = (Inl e, []))"
    by (rule conjunct2)
  then have "wordy_environ ''MINUTES'' = Some ''five'' \<and> (\<forall>c \<in> set ''five''. \<not> isdigit c)
          \<longrightarrow> (\<exists>e. invocation example_world wordy_environ example_event = (Inl e, []))"
    by (rule spec)
  from this n
  have d': "\<exists>e. invocation example_world wordy_environ example_event = (Inl e, [])"
    by (rule mp)
  from a a' b b' prepare_job_example c' d' show ?thesis
    unfolding v s by (intro conjI) simp_all
qed



text \<open>
  C1, as the code has it. When the parser accepts the event's \<open>time\<close> as the
  datetime \<open>qe\<close>, the window is \<open>m\<close> minutes, and the handler gets as far as its job
  parameters, the start of the window is a datetime \<open>qs\<close> that lies \<open>60 * m\<close> seconds
  before \<open>qe\<close> on the time line, with the microseconds and the time zone of \<open>qe\<close>;
  \<open>start_datetime\<close> and \<open>end_datetime\<close> are \<^verbatim>\<open>--start-date=\<close> and \<^verbatim>\<open>--end-date=\<close>
  followed by \<open>qs\<close> and \<open>qe\<close> rendered with \<open>DATETIME_FORMAT\<close>; and a rendering has
  the fixed shape \<^verbatim>\<open>YYYY-MM-DDTHH:MM:SSZ\<close> exactly when its year is 1000 or later,
  the year being printed without padding.
\<close>

theorem query_window:
  assumes "ev ''time'' = Some t" and "isoparse w t = Inr qe" and "valid_datetime qe"
    and "minutes_of env = Inr ms" and "to_int ms = Inr m"
    and "prepare_job w env ev = Inr j"
  shows "\<exists>qs. datetime_add qe \<lparr>rd_days = 0, rd_minutes = - m\<rparr> = Inr qs
           \<and> valid_datetime qs
           \<and> wall_seconds qs = wall_seconds qe - 60 * m
           \<and> microsecond qs = microsecond qe \<and> tzinfo qs = tzinfo qe
           \<and> map_of (job_params j) ''start_datetime''
              = Some (''--start-date='' @ strftime qs DATETIME_FORMAT)
           \<and> map_of (job_params j) ''end_datetime''
              = Some (''--end-date='' @ strftime qe DATETIME_FORMAT)
           \<and> has_shape FIXED_SHAPE (strftime qs DATETIME_FORMAT) = (1000 \<le> year qs)
           \<and> has_shape FIXED_SHAPE (strftime qe DATETIME_FORMAT) = (1000 \<le> year qe)"
proof (rule prepare_job_window [OF assms(6)])
  fix t' qe' ms' m' qs
  assume f: "ev ''time'' = Some t'" "isoparse w t' = Inr qe'" "minutes_of env = Inr ms'"
    "to_int ms' = Inr m'" "datetime_add qe' \<lparr>rd_days = 0, rd_minutes = - m'\<rparr> = Inr qs"
    and p: "map_of (job_params j) ''start_datetime''
              = Some (''--start-date='' @ strftime qs DATETIME_FORMAT)"
      "map_of (job_params j) ''end_datetime''
              = Some (''--end-date='' @ strftime qe' DATETIME_FORMAT)"
  from f assms have e: "qe' = qe" "m' = m" by simp_all
  from f(5) have a: "datetime_add qe \<lparr>rd_days = 0, rd_minutes = - m\<rparr> = Inr qs"
    unfolding e .
  have v: "valid_datetime qs"
    using a assms(3) by (rule datetime_add_valid)
  from datetime_add_wall_seconds [OF a]
  have s: "wall_seconds qs = wall_seconds qe - 60 * m" "microsecond qs = microsecond qe"
    "tzinfo qs = tzinfo qe"
    by simp_all
  from a v s p strftime_fixed_shape_iff [OF v] strftime_fixed_shape_iff [OF assms(3)]
  show ?thesis unfolding e by (intro exI [of _ qs] conjI)
qed

theorem query_window_witness:
  "example_event ''time'' = Some ''2024-01-01T00:10:00Z''
   \<and> isoparse example_world ''2024-01-01T00:10:00Z'' = Inr example_end
   \<and> valid_datetime example_end
   \<and> minutes_of example_environ = Inr ''5'' \<and> to_int ''5'' = Inr 5
   \<and> prepare_job example_world example_environ example_event = Inr example_job
   \<and> (\<exists>qs. valid_datetime qs \<and> wall_seconds qs = wall_seconds example_end - 60 * 5
          \<and> strftime qs DATETIME_FORMAT = ''2024-01-01T00:05:00Z''
          \<and> strftime example_end DATETIME_FORMAT = ''2024-01-01T00:10:00Z''
          \<and> has_shape FIXED_SHAPE (strftime qs DATETIME_FORMAT))"
proof -
  have t: "example_event ''time'' = Some ''2024-01-01T00:10:00Z''"
    by (simp add: example_event_def)
  have m: "minutes_of example_environ = Inr ''5''" "to_int ''5'' = Inr 5"
    using minutes_of_example by simp_all
  have p: "map_of (job_params example_job) ''start_datetime''
             = Some (''--start-date='' @ ''2024-01-01T00:05:00Z'')"
    "map_of (job_params example_job) ''end_datetime''
             = Some (''--end-date='' @ ''2024-01-01T00:10:00Z'')"
    by (simp_all add: example_job_def)
  have h: "has_shape FIXED_SHAPE ''2024-01-01T00:05:00Z''"
    by code_simp
  from query_window [OF t isoparse_example valid_example_end m prepare_job_example]
  obtain qs where q: "valid_datetime qs" "wall_seconds qs = wall_seconds example_end - 60 * 5"
    "map_of (job_params example_job) ''start_datetime''
       = Some (''--start-date='' @ strftime qs DATETIME_FORMAT)"
    "map_of (job_params example_job) ''end_datetime''
       = Some (''--end-date='' @ strftime example_end DATETIME_FORMAT)"
    by blast
  from q(3,4) have s: "strftime qs DATETIME_FORMAT = ''2024-01-01T00:05:00Z''"
    "strftime example_end DATETIME_FORMAT = ''2024-01-01T00:10:00Z''"
    unfolding p option.inject same_append_eq by simp_all
  from q(1,2) s h have "\<exists>qs. valid_datetime qs
          \<and> wall_seconds qs = wall_seconds example_end - 60 * 5
          \<and> strftime qs DATETIME_FORMAT = ''2024-01-01T00:05:00Z''
          \<and> strftime example_end DATETIME_FORMAT = ''2024-01-01T00:10:00Z''
          \<and> has_shape FIXED_SHAPE (strftime qs DATETIME_FORMAT)"
    by (intro exI [of _ qs] conjI) simp_all
  with t isoparse_example valid_example_end m prepare_job_example show ?thesis
    by (intro conjI)
qed

text \<open>
  The claim C1 as stated, with both bounds in the fixed format for every valid
  timestamp, fails at the event of 0999-01-01T00:10:00Z: the end of the window is
  rendered with a year of three digits.
\<close>

theorem year_999_counterexample:
  "early_event ''time'' = Some ''0999-01-01T00:10:00Z''
   \<and> job_param (prepare_job example_world example_environ early_event) ''end_datetime''
      = Some ''--end-date=999-01-01T00:10:00Z''
   \<and> \<not> has_shape FIXED_SHAPE ''999-01-01T00:10:00Z''"
  by code_simp

text \<open>
  C2, as the code has it. Let \<open>margin\<close> be \<^verbatim>\<open>TEMPORAL_START_DATETIME_MARGIN_DAYS\<close>,
  or the empty string when it is unset, and let \<open>qe\<close> be the end of the window. If
  \<open>margin\<close> reads as the integer \<open>d\<close> and the day \<open>d\<close> days before \<open>qe\<close> is a day of the
  years 1 to 9999, \<^verbatim>\<open>get_temporal_start_datetime\<close> returns the datetime \<open>86400 * d\<close>
  seconds before \<open>qe\<close> rendered with \<open>DATETIME_FORMAT\<close> (in the fixed shape exactly
  when its year is 1000 or later). If \<open>margin\<close> does not read as an integer, as when
  it is unset, or if that day is out of range, it returns \<^verbatim>\<open>TEMPORAL_START_DATETIME\<close>,
  or the empty string when that is unset. It returns a string in each case: nothing
  it does ends the invocation.
\<close>

theorem margin_or_literal:
  fixes env :: environ
  assumes "valid_datetime qe"
  defines "margin \<equiv> environ_get env ''TEMPORAL_START_DATETIME_MARGIN_DAYS'' ''''"
  shows "(\<forall>d. py_int margin = Some d \<and> 1 \<le> toordinal qe - d \<and> toordinal qe - d \<le> MAXORDINAL
            \<longrightarrow> (\<exists>t. datetime_sub qe \<lparr>rd_days = d, rd_minutes = 0\<rparr> = Inr t
                   \<and> valid_datetime t \<and> wall_seconds t = wall_seconds qe - 86400 * d
                   \<and> get_temporal_start_datetime env qe = strftime t DATETIME_FORMAT
                   \<and> has_shape FIXED_SHAPE (strftime t DATETIME_FORMAT) = (1000 \<le> year t)))
         \<and> (py_int margin = None
              \<or> (\<exists>d. py_int margin = Some d
                      \<and> \<not> (1 \<le> toordinal qe - d \<and> toordinal qe - d \<le> MAXORDINAL))
            \<longrightarrow> get_temporal_start_datetime env qe
                = environ_get env ''TEMPORAL_START_DATETIME'' '''')
         \<and> (env ''TEMPORAL_START_DATETIME_MARGIN_DAYS'' = None \<longrightarrow> py_int margin = None)"
proof (intro conjI allI impI)
  fix d
  assume h: "py_int margin = Some d \<and> 1 \<le> toordinal qe - d \<and> toordinal qe - d \<le> MAXORDINAL"
  let ?rd = "relativedelta_neg \<lparr>rd_days = d, rd_minutes = 0\<rparr>"
  have tot: "wall_seconds qe + rd_days ?rd * 86400 + rd_minutes ?rd * 60
             = wall_seconds qe + (- d) * 86400"
    by (simp add: relativedelta_neg_def)
  have dv: "(wall_seconds qe + rd_days ?rd * 86400 + rd_minutes ?rd * 60) div 86400
            = toordinal qe - d"
    unfolding tot using valid_datetime_day_seconds [OF assms(1), of "- d"] by simp
  show "\<exists>t. datetime_sub qe \<lparr>rd_days = d, rd_minutes = 0\<rparr> = Inr t
           \<and> valid_datetime t \<and> wall_seconds t = wall_seconds qe - 86400 * d
           \<and> get_temporal_start_datetime env qe = strftime t DATETIME_FORMAT
           \<and> has_shape FIXED_SHAPE (strftime t DATETIME_FORMAT) = (1000 \<le> year t)"
  proof (cases qe ?rd rule: datetime_add_cases)
    case overflow
    with h dv show ?thesis by simp
  next
    case (ok t)
    then have s: "datetime_sub qe \<lparr>rd_days = d, rd_minutes = 0\<rparr> = Inr t"
      by (simp add: datetime_sub_def)
    have v: "valid_datetime t"
      using ok(1) assms(1) by (rule datetime_add_valid)
    have w: "wall_seconds t = wall_seconds qe - 86400 * d"
      using ok(4) unfolding tot by simp
    have "temporal_start_from_margin env qe = Inr (strftime t DATETIME_FORMAT)"
      using h s by (simp add: temporal_start_from_margin_def margin_def [symmetric] err_bind_def)
    then have g: "get_temporal_start_datetime env qe = strftime t DATETIME_FORMAT"
      by (simp add: get_temporal_start_datetime_def)
    from s v w g strftime_fixed_shape_iff [OF v] show ?thesis
      by (intro exI [of _ t] conjI)
  qed
next
  assume h: "py_int margin = None
              \<or> (\<exists>d. py_int margin = Some d
                      \<and> \<not> (1 \<le> toordinal qe - d \<and> toordinal qe - d \<le> MAXORDINAL))"
  have "\<exists>e. temporal_start_from_margin env qe = Inl e"
    using h
  proof (elim disjE exE conjE)
    assume "py_int margin = None"
    then show ?thesis
      by (simp add: temporal_start_from_margin_def margin_def [symmetric])
  next
    fix d
    assume d: "py_int margin = Some d"
      "\<not> (1 \<le> toordinal qe - d \<and> toordinal qe - d \<le> MAXORDINAL)"
    let ?rd = "relativedelta_neg \<lparr>rd_days = d, rd_minutes = 0\<rparr>"
    have tot: "wall_seconds qe + rd_days ?rd * 86400 + rd_minutes ?rd * 60
               = wall_seconds qe + (- d) * 86400"
      by (simp add: relativedelta_neg_def)
    have dv: "(wall_seconds qe + rd_days ?rd * 86400 + rd_minutes ?rd * 60) div 86400
              = toordinal qe - d"
      unfolding tot using valid_datetime_day_seconds [OF assms(1), of "- d"] by simp
    have "datetime_sub qe \<lparr>rd_days = d, rd_minutes = 0\<rparr> = Inl OverflowError"
    proof (cases qe ?rd rule: datetime_add_cases)
      case overflow
      then show ?thesis by (simp add: datetime_sub_def)
    next
      case (ok t)
      with d(2) dv show ?thesis by simp
    qed
    with d(1) show ?thesis
      by (simp add: temporal_start_from_margin_def margin_def [symmetric] err_bind_def)
  qed
  then show "get_temporal_start_datetime env qe
             = environ_get env ''TEMPORAL_START_DATETIME'' ''''"
    by (auto simp: get_temporal_start_datetime_def)
next
  assume "env ''TEMPORAL_START_DATETIME_MARGIN_DAYS'' = None"
  then show "py_int margin = None"
    by (simp add: margin_def environ_get_def py_int_empty)
qed

theorem margin_or_literal_witness:
  "valid_datetime example_end
   \<and> py_int (environ_get example_environ ''TEMPORAL_START_DATETIME_MARGIN_DAYS'' '''') = Some 3
   \<and> 1 \<le> toordinal example_end - 3 \<and> toordinal example_end - 3 \<le> MAXORDINAL
   \<and> (\<exists>t. valid_datetime t \<and> wall_seconds t = wall_seconds example_end - 86400 * 3
          \<and> get_temporal_start_datetime example_environ example_end
             = strftime t DATETIME_FORMAT)
   \<and> get_temporal_start_datetime example_environ example_end = ''2023-12-29T00:10:00Z''
   \<and> py_int (environ_get far_margin_environ ''TEMPORAL_START_DATETIME_MARGIN_DAYS'' '''')
      = Some 4000000
   \<and> \<not> (1 \<le> toordinal example_end - 4000000 \<and> toordinal example_end - 4000000 \<le> MAXORDINAL)
   \<and> get_temporal_start_datetime far_margin_environ example_end = ''''
   \<and> literal_environ ''TEMPORAL_START_DATETIME_MARGIN_DAYS'' = None
   \<and> get_temporal_start_datetime literal_environ example_end = ''2020-01-01T00:00:00Z''"
proof -
  have a: "py_int (environ_get example_environ ''TEMPORAL_START_DATETIME_MARGIN_DAYS'' '''')
             = Some 3
           \<and> 1 \<le> toordinal example_end - 3 \<and> toordinal example_end - 3 \<le> MAXORDINAL"
    by code_simp
  have b: "py_int (environ_get far_margin_environ ''TEMPORAL_START_DATETIME_MARGIN_DAYS'' '''')
             = Some 4000000
           \<and> \<not> (1 \<le> toordinal example_end - 4000000
                 \<and> toordinal example_end - 4000000 \<le> MAXORDINAL)"
    by code_simp
  have c: "literal_environ ''TEMPORAL_START_DATETIME_MARGIN_DAYS'' = None"
    by (simp add: literal_environ_def)
  have v: "get_temporal_start_datetime example_environ example_end = ''2023-12-29T00:10:00Z''"
    "environ_get far_margin_environ ''TEMPORAL_START_DATETIME'' '''' = ''''"
    "environ_get literal_environ ''TEMPORAL_START_DATETIME'' '''' = ''2020-01-01T00:00:00Z''"
    by code_simp+
  note x = margin_or_literal [OF valid_example_end, where env = example_environ]
  note y = margin_or_literal [OF valid_example_end, where env = far_margin_environ]
  note z = margin_or_literal [OF valid_example_end, where env = literal_environ]
from x have "\<forall>d. py_int (environ_get example_environ
                          ''TEMPORAL_START_DATETIME_MARGIN_DAYS'' '''') = Some d
                  \<and> 1 \<le> toordinal example_end - d \<and> toordinal example_end - d \<le> MAXORDINAL
       \<longrightarrow> (\<exists>t. datetime_sub example_end \<lparr>rd_days = d, rd_minutes = 0\<rparr> = Inr t
              \<and> valid_datetime t \<and> wall_seconds t = wall_seconds example_end - 86400 * d
              \<and> get_temporal_start_datetime example_environ example_end
                 = strftime t DATETIME_FORMAT
              \<and> has_shape FIXED_SHAPE (strftime t DATETIME_FORMAT) = (1000 \<le> year t))"
    by (rule conjunct1)
  then have "py_int (environ_get example_environ
                          ''TEMPORAL_START_DATETIME_MARGIN_DAYS'' '''') = Some 3
                  \<and> 1 \<le> toordinal example_end - 3 \<and> toordinal example_end - 3 \<le> MAXORDINAL
       \<longrightarrow> (\<exists>t. datetime_sub example_end \<lparr>rd_days = 3, rd_minutes = 0\<rparr> = Inr t
              \<and> valid_datetime t \<and> wall_seconds t = wall_seconds example_end - 86400 * 3
              \<and> get_temporal_start_datetime example_environ example_end
                 = strftime t DATETIME_FORMAT
              \<and> has_shape FIXED_SHAPE (strftime t DATETIME_FORMAT) = (1000 \<le> year t))"
    by (rule spec)
  from this a
  have "\<exists>t. datetime_sub example_end \<lparr>rd_days = 3, rd_minutes = 0\<rparr> = Inr t
              \<and> valid_datetime t \<and> wall_seconds t = wall_seconds example_end - 86400 * 3
              \<and> get_temporal_start_datetime example_environ example_end
                 = strftime t DATETIME_FORMAT
              \<and> has_shape FIXED_SHAPE (strftime t DATETIME_FORMAT) = (1000 \<le> year t)"
    by (rule mp)
  then obtain t where "valid_datetime t"
    "wall_seconds t = wall_seconds example_end - 86400 * 3"
    "get_temporal_start_datetime example_environ example_end = strftime t DATETIME_FORMAT"
    by (elim exE conjE)
  then have a': "\<exists>t. valid_datetime t \<and> wall_seconds t = wall_seconds example_end - 86400 * 3
          \<and> get_temporal_start_datetime example_environ example_end
             = strftime t DATETIME_FORMAT"
    by (intro exI [of _ t] conjI)
  have "py_int (environ_get far_margin_environ ''TEMPORAL_START_DATETIME_MARGIN_DAYS'' '''')
          = None
        \<or> (\<exists>d. py_int (environ_get far_margin_environ
                         ''TEMPORAL_START_DATETIME_MARGIN_DAYS'' '''') = Some d
               \<and> \<not> (1 \<le> toordinal example_end - d \<and> toordinal example_end - d \<le> MAXORDINAL))"
    by (rule disjI2, rule exI [of _ 4000000], rule b)
  with conjunct1 [OF conjunct2 [OF y]]
  have "get_temporal_start_datetime far_margin_environ example_end
                 = environ_get far_margin_environ ''TEMPORAL_START_DATETIME'' ''''"
    by (rule mp)
  then have b': "get_temporal_start_datetime far_margin_environ example_end = ''''"
    unfolding v(2) .
  from z have "literal_environ ''TEMPORAL_START_DATETIME_MARGIN_DAYS'' = None
      \<longrightarrow> py_int (environ_get literal_environ ''TEMPORAL_START_DATETIME_MARGIN_DAYS'' '''')
          = None"
    by (rule conjunct2 [OF conjunct2])
  from this c
  have "py_int (environ_get literal_environ ''TEMPORAL_START_DATETIME_MARGIN_DAYS'' '''')
          = None"
    by (rule mp)
  then have "py_int (environ_get literal_environ ''TEMPORAL_START_DATETIME_MARGIN_DAYS'' '''')
          = None
        \<or> (\<exists>d. py_int (environ_get literal_environ
                         ''TEMPORAL_START_DATETIME_MARGIN_DAYS'' '''') = Some d
               \<and> \<not> (1 \<le> toordinal example_end - d \<and> toordinal example_end - d \<le> MAXORDINAL))"
    by (rule disjI1)
  with conjunct1 [OF conjunct2 [OF z]]
  have "get_temporal_start_datetime literal_environ example_end
                 = environ_get literal_environ ''TEMPORAL_START_DATETIME'' ''''"
    by (rule mp)
  then have c': "get_temporal_start_datetime literal_environ example_end
                 = ''2020-01-01T00:00:00Z''"
    unfolding v(3) .

  from valid_example_end a a' v(1) b b' c c' show ?thesis by (intro conjI) simp_all
qed

text \<open>
  The claim C2 as stated, for every margin that parses as an integer, fails at the
  margin of 4000000 days: the day that many days before 2024-01-01 is before the year
  1, the subtraction raises OverflowError, the handler of the exception takes the
  literal, and here, with no literal configured, the result is the empty string.
\<close>

theorem far_margin_counterexample:
  "py_int (environ_get far_margin_environ ''TEMPORAL_START_DATETIME_MARGIN_DAYS'' '''')
     = Some 4000000
   \<and> get_temporal_start_datetime far_margin_environ example_end = ''''
   \<and> \<not> has_shape FIXED_SHAPE ''''"
  by code_simp

end
